theory Spec2Isabelle
  imports Complex_Main "HOL-Library.Sublist" "HOL-Library.Multiset"
begin

section \<open>Python values\<close>

text \<open>
  The payload decoded from the provider's answer is an arbitrary JSON value, and the result
  records the module builds are Python dicts. Both are values of \<open>json\<close>: a dict is an
  association list read with \<open>map_of\<close> (the first binding of a key is the dict's entry).
  A Python character is one \<open>char\<close>, so the strings of the model are the Python strings
  of code points 0 to 255; \<open>length\<close> is Python's \<open>len\<close>.
  Floating-point payload numbers are carried as the real number they denote.
\<close>

datatype json =
    JNull
  | JBool bool
  | JInt int
  | JFloat real
  | JStr string
  | JList "json list"
  | JObj "(string \<times> json) list"

text \<open>The exceptions the interpreter raises inside the module's own code.\<close>

datatype exn = AttributeError | TypeError | KeyError | DecodeError

subsection \<open>Strings\<close>

text \<open>
  \<open>str.lower()\<close>. Among the code points 0 to 255 it changes the capital letters
  \<open>A\<close> to \<open>Z\<close> (65 to 90) and the accented capitals 192 to 214 and 216 to 222
  (215 is the multiplication sign), each to the code point 32 above it, and no other
  character; it works character by character.
\<close>

definition is_upper :: "char \<Rightarrow> bool" where
  "is_upper c =
     ((65 \<le> (of_char c :: nat) \<and> (of_char c :: nat) \<le> 90)
      \<or> (192 \<le> (of_char c :: nat) \<and> (of_char c :: nat) \<le> 214)
      \<or> (216 \<le> (of_char c :: nat) \<and> (of_char c :: nat) \<le> 222))"

definition lower_char :: "char \<Rightarrow> char" where
  "lower_char c = (if is_upper c then char_of ((of_char c :: nat) + 32) else c)"

definition lower :: "string \<Rightarrow> string" where
  "lower s = map lower_char s"

text \<open>\<open>k in s\<close> for two strings: \<open>k\<close> occurs in \<open>s\<close> as a contiguous block.\<close>

fun is_substr :: "string \<Rightarrow> string \<Rightarrow> bool" where
  "is_substr k [] = (k = [])"
| "is_substr k (c # cs) = (prefix k (c # cs) \<or> is_substr k cs)"

text \<open>\<open>str(n)\<close> for an integer: decimal digits, with a leading minus sign below zero.\<close>

function str_nat :: "nat \<Rightarrow> string" where
  "str_nat n = (if n < 10 then [char_of (48 + n)]
                else str_nat (n div 10) @ [char_of (48 + n mod 10)])"
  by pat_completeness auto
termination
  by (relation "measure id") auto

declare str_nat.simps [simp del]

definition str_int :: "int \<Rightarrow> string" where
  "str_int i = (if i < 0 then CHR ''-'' # str_nat (nat (- i)) else str_nat (nat i))"

text \<open>
  The slice \<open>xs[:n]\<close>: the first \<open>n\<close> elements when \<open>n\<close> is not negative, and all but
  the last \<open>-n\<close> elements when it is.
\<close>

definition slice_to :: "int \<Rightarrow> 'a list \<Rightarrow> 'a list" where
  "slice_to n xs = (if 0 \<le> n then take (nat n) xs
                    else take (nat (int (length xs) + n)) xs)"

section \<open>The cache store\<close>

text \<open>
  \<open>SearchResponse\<close>: the dict with the keys \<open>success\<close>, \<open>results\<close> and \<open>error\<close>
  that \<open>search_google_serp\<close> returns; \<open>error\<close> is \<open>None\<close> or a message.
\<close>

record response =
  success :: bool
  results :: "json list"
  error :: "string option"

text \<open>
  \<open>_CACHE\<close> maps a key to the pair of a response and the clock reading at insertion.
  Only \<open>_cache_get\<close> and \<open>_cache_set\<close> touch it. Clock readings are seconds, as reals.
\<close>

type_synonym cache = "string \<rightharpoonup> (response \<times> real)"

definition CACHE_TTL_SEC :: real where
  "CACHE_TTL_SEC = 60 * 30"

text \<open>
  \<open>_cache_get\<close> at clock reading \<open>now\<close>: the value found, and the cache afterwards
  (an expired entry is popped).
\<close>

definition cache_get :: "real \<Rightarrow> cache \<Rightarrow> string \<Rightarrow> response option \<times> cache" where
  "cache_get now c key =
     (case c key of
        None \<Rightarrow> (None, c)
      | Some (v, ts) \<Rightarrow>
          if now - ts > CACHE_TTL_SEC then (None, c(key := None)) else (Some v, c))"

definition cache_set :: "real \<Rightarrow> cache \<Rightarrow> string \<Rightarrow> response \<Rightarrow> cache" where
  "cache_set now c key v = c(key \<mapsto> (v, now))"

text \<open>The key built at line 64: \<open>f"serp::{query.lower()}::{num_results}"\<close>.\<close>

definition cache_key :: "string \<Rightarrow> int \<Rightarrow> string" where
  "cache_key query num_results = ''serp::'' @ lower query @ ''::'' @ str_int num_results"

text \<open>
  Two characters that are the same, or the upper-case and lower-case form of one letter;
  two strings differ only in letter case when they do so position by position.
\<close>

definition case_variant :: "char \<Rightarrow> char \<Rightarrow> bool" where
  "case_variant c d =
     (c = d \<or> (is_upper c \<and> d = lower_char c) \<or> (is_upper d \<and> c = lower_char d))"

definition differ_only_in_case :: "string \<Rightarrow> string \<Rightarrow> bool" where
  "differ_only_in_case p q = list_all2 case_variant p q"

section \<open>The provider's answer\<close>

text \<open>
  What the one call of \<open>requests.post\<close> (lines 80 to 92) does: it raises
  \<open>requests.Timeout\<close>, it raises another exception \<open>e\<close> (carried as \<open>str(e)\<close>), or it
  returns a response with a status code, a text, and what \<open>response.json()\<close> gives
  (\<open>None\<close> when decoding raises). The request itself is not part of the model.
\<close>

datatype post_outcome =
    TimedOut
  | Failed string
  | Responded int string "json option"

text \<open>
  The environment of one call of \<open>search_google_serp\<close>: the two environment variables
  it reads that influence the result, \<open>json.loads\<close> (\<open>None\<close> when it raises), \<open>str(e)\<close> for
  the interpreter's own exceptions, the clock readings of \<open>_cache_get\<close> and
  \<open>_cache_set\<close>, and the provider's answer.
\<close>

record call_env =
  api_token :: "string option"
  serp_format :: string
  json_loads :: "string \<Rightarrow> json option"
  exn_text :: "exn \<Rightarrow> string"
  clock_get :: real
  clock_set :: real
  post_result :: post_outcome

section \<open>Operations on Python values\<close>

text \<open>\<open>d.get(k, dflt)\<close> on a dict.\<close>

definition dict_get :: "(string \<times> json) list \<Rightarrow> string \<Rightarrow> json \<Rightarrow> json" where
  "dict_get d k dflt = (case map_of d k of None \<Rightarrow> dflt | Some v \<Rightarrow> v)"

text \<open>
  \<open>k in v\<close> for a string \<open>k\<close>: a key of a dict, an element of a list, a substring of a
  string; any other value is not iterable.
\<close>

definition contains :: "string \<Rightarrow> json \<Rightarrow> exn + bool" where
  "contains k v =
     (case v of
        JObj d \<Rightarrow> Inr (map_of d k \<noteq> None)
      | JList xs \<Rightarrow> Inr (JStr k \<in> set xs)
      | JStr s \<Rightarrow> Inr (is_substr k s)
      | _ \<Rightarrow> Inl TypeError)"

text \<open>\<open>v[k]\<close> for a string \<open>k\<close>: only a dict can be indexed by a string.\<close>

definition getitem :: "json \<Rightarrow> string \<Rightarrow> exn + json" where
  "getitem v k =
     (case v of
        JObj d \<Rightarrow> (case map_of d k of None \<Rightarrow> Inl KeyError | Some x \<Rightarrow> Inr x)
      | _ \<Rightarrow> Inl TypeError)"

text \<open>\<open>v[:n]\<close>: lists and strings can be sliced.\<close>

definition slice_json :: "int \<Rightarrow> json \<Rightarrow> exn + json" where
  "slice_json n v =
     (case v of
        JList xs \<Rightarrow> Inr (JList (slice_to n xs))
      | JStr s \<Rightarrow> Inr (JStr (slice_to n s))
      | _ \<Rightarrow> Inl TypeError)"

text \<open>The items a \<open>for\<close> loop visits in \<open>v[:n]\<close>: elements of a list, characters of a string.\<close>

definition slice_items :: "int \<Rightarrow> json \<Rightarrow> exn + json list" where
  "slice_items n v =
     (case v of
        JList xs \<Rightarrow> Inr (slice_to n xs)
      | JStr s \<Rightarrow> Inr (map (\<lambda>c. JStr [c]) (slice_to n s))
      | _ \<Rightarrow> Inl TypeError)"

section \<open>The raw-text pattern\<close>

text \<open>
  Line 139 applies \<open>re.findall\<close> with \<open>re.IGNORECASE\<close> to the pattern
  \<^verbatim>\<open>[A-Z][^.!?]*(?:review|hotel|wifi|guest|stay|room|service|clean)[^.!?]*[.!?]\<close>.
  A match at a position is: one of the letters \<open>A\<close> to \<open>Z\<close> in either case; then
  characters other than \<open>.\<close>, \<open>!\<close>, \<open>?\<close> among which a keyword occurs, in any letter
  case; then one of \<open>.\<close>, \<open>!\<close>, \<open>?\<close>. The keywords have no accented letter, so a keyword
  occurs in a text in some letter case when it occurs in the lower-cased text. Neither starred group nor a keyword can cross one of these three
  characters, so the match ends at the first of them after the letter and is the only
  match at that position. \<open>findall\<close> scans from left to right, resumes after a match
  and one character further where there is none, and returns the matched texts
  (the pattern has no capturing group).
\<close>

definition is_letter :: "char \<Rightarrow> bool" where
  "is_letter c =
     ((65 \<le> (of_char c :: nat) \<and> (of_char c :: nat) \<le> 90)
      \<or> (97 \<le> (of_char c :: nat) \<and> (of_char c :: nat) \<le> 122))"

definition is_terminator :: "char \<Rightarrow> bool" where
  "is_terminator c = (c = CHR ''.'' \<or> c = CHR ''!'' \<or> c = CHR ''?'')"

definition KEYWORDS :: "string list" where
  "KEYWORDS = [''review'', ''hotel'', ''wifi'', ''guest'', ''stay'', ''room'', ''service'', ''clean'']"

definition has_keyword :: "string \<Rightarrow> bool" where
  "has_keyword body = list_ex (\<lambda>kw. is_substr kw (lower body)) KEYWORDS"

text \<open>The match starting at the head of the text, with the text left after it.\<close>

definition match_at :: "string \<Rightarrow> (string \<times> string) option" where
  "match_at s =
     (case s of
        [] \<Rightarrow> None
      | c # cs \<Rightarrow>
          if is_letter c then
            (case dropWhile (\<lambda>x. \<not> is_terminator x) cs of
               [] \<Rightarrow> None
             | t # rest \<Rightarrow>
                 let body = takeWhile (\<lambda>x. \<not> is_terminator x) cs
                 in if has_keyword body then Some (c # body @ [t], rest) else None)
          else None)"

lemma match_at_shorter: "match_at s = Some (m, rest) \<Longrightarrow> length rest < length s"
proof -
  assume a: "match_at s = Some (m, rest)"
  then obtain c cs where s: "s = c # cs"
    by (cases s) (auto simp: match_at_def)
  from a s obtain t where "dropWhile (\<lambda>x. \<not> is_terminator x) cs = t # rest"
    by (auto simp: match_at_def Let_def split: if_splits list.splits)
  then have "Suc (length rest) = length (dropWhile (\<lambda>x. \<not> is_terminator x) cs)"
    by simp
  also have "\<dots> \<le> length cs"
    by (rule length_dropWhile_le)
  finally show ?thesis
    using s by simp
qed

function findall :: "string \<Rightarrow> string list" where
  "findall [] = []"
| "findall (c # cs) =
     (case match_at (c # cs) of
        None \<Rightarrow> findall cs
      | Some (m, rest) \<Rightarrow> m # findall rest)"
  by pat_completeness auto
termination
  by (relation "measure length") (auto dest: match_at_shorter)

section \<open>The result extractor\<close>

text \<open>The record appended at lines 118 to 122, for one item of the \<open>organic\<close> list.\<close>

definition organic_result :: "json \<Rightarrow> exn + json" where
  "organic_result item =
     (case item of
        JObj d \<Rightarrow>
          (case slice_json 300 (dict_get d ''description'' (dict_get d ''snippet'' (JStr []))) of
             Inl e \<Rightarrow> Inl e
           | Inr sn \<Rightarrow>
               Inr (JObj [(''title'', dict_get d ''title'' (JStr [])),
                          (''snippet'', sn),
                          (''link'', dict_get d ''link'' (dict_get d ''url'' (JStr [])))]))
      | _ \<Rightarrow> Inl AttributeError)"

text \<open>The record appended at lines 127 to 131, for one item of the \<open>results\<close> list.\<close>

definition generic_result :: "json \<Rightarrow> exn + json" where
  "generic_result item =
     (case item of
        JObj d \<Rightarrow>
          (case slice_json 300 (dict_get d ''snippet'' (dict_get d ''description'' (JStr []))) of
             Inl e \<Rightarrow> Inl e
           | Inr sn \<Rightarrow>
               Inr (JObj [(''title'', dict_get d ''title'' (JStr [])),
                          (''snippet'', sn),
                          (''link'', dict_get d ''link'' (dict_get d ''url'' (JStr [])))]))
      | _ \<Rightarrow> Inl AttributeError)"

text \<open>
  The loops at lines 117 and 126: each item's record is appended to the list \<open>results\<close>
  (here \<open>acc\<close>); an exception at an item leaves the loop.
\<close>

fun append_each :: "(json \<Rightarrow> exn + json) \<Rightarrow> json list \<Rightarrow> json list \<Rightarrow> exn + json list" where
  "append_each f acc [] = Inr acc"
| "append_each f acc (item # items) =
     (case f item of
        Inl e \<Rightarrow> Inl e
      | Inr r \<Rightarrow> append_each f (acc @ [r]) items)"

text \<open>The record appended at lines 142 to 146, for the match at index \<open>i\<close>.\<close>

definition raw_result :: "nat \<Rightarrow> string \<Rightarrow> json" where
  "raw_result i snippet =
     JObj [(''title'', JStr (''Result '' @ str_int (int i + 1))),
           (''snippet'', JStr (slice_to 300 snippet)),
           (''link'', JStr [])]"

text \<open>The loop at line 140, from index \<open>i\<close> on, appending to the list \<open>results\<close> (here \<open>acc\<close>).\<close>

fun raw_loop :: "nat \<Rightarrow> json list \<Rightarrow> string list \<Rightarrow> json list" where
  "raw_loop i acc [] = acc"
| "raw_loop i acc (snippet # snippets) =
     raw_loop (Suc i)
       (if length snippet > 30 then acc @ [raw_result i snippet] else acc)
       snippets"

text \<open>Lines 113 to 146: the list \<open>results\<close>, or the exception raised on the way.\<close>

definition extract_results :: "json \<Rightarrow> int \<Rightarrow> exn + json list" where
  "extract_results data num_results =
     (case contains ''organic'' data of
        Inl e \<Rightarrow> Inl e
      | Inr in_organic \<Rightarrow>
          if in_organic then
            (case getitem data ''organic'' of
               Inl e \<Rightarrow> Inl e
             | Inr v \<Rightarrow>
                 (case slice_items num_results v of
                    Inl e \<Rightarrow> Inl e
                  | Inr items \<Rightarrow> append_each organic_result [] items))
          else
            (case contains ''results'' data of
               Inl e \<Rightarrow> Inl e
             | Inr in_results \<Rightarrow>
                 if in_results then
                   (case getitem data ''results'' of
                      Inl e \<Rightarrow> Inl e
                    | Inr v \<Rightarrow>
                        (case slice_items num_results v of
                           Inl e \<Rightarrow> Inl e
                         | Inr items \<Rightarrow> append_each generic_result [] items))
                 else
                   (case contains ''raw'' data of
                      Inl e \<Rightarrow> Inl e
                    | Inr in_raw \<Rightarrow>
                        if in_raw then
                          (case getitem data ''raw'' of
                             Inl e \<Rightarrow> Inl e
                           | Inr (JStr raw) \<Rightarrow>
                               Inr (raw_loop 0 [] (slice_to num_results (findall raw)))
                           | Inr _ \<Rightarrow> Inl TypeError)
                        else Inr [])))"

section \<open>The search call\<close>

text \<open>Lines 95 to 98: the decoded payload.\<close>

definition decode :: "call_env \<Rightarrow> string \<Rightarrow> json option \<Rightarrow> exn + json" where
  "decode env text decoded =
     (if lower (serp_format env) = ''json'' then
        (case decoded of None \<Rightarrow> Inl DecodeError | Some data \<Rightarrow> Inr data)
      else Inr (JObj [(''raw'', JStr text)]))"

text \<open>Lines 101 to 110: the payload under \<open>body\<close>, when there is one.\<close>

definition unwrap_body :: "call_env \<Rightarrow> json \<Rightarrow> json" where
  "unwrap_body env data =
     (case data of
        JObj d \<Rightarrow>
          (case map_of d ''body'' of
             None \<Rightarrow> data
           | Some (JObj b) \<Rightarrow> JObj b
           | Some (JStr s) \<Rightarrow>
               (case json_loads env s of
                  Some v \<Rightarrow> v
                | None \<Rightarrow> JObj [(''raw'', JStr s)])
           | Some _ \<Rightarrow> data)
      | _ \<Rightarrow> data)"

definition failure :: "string \<Rightarrow> response" where
  "failure msg = \<lparr>success = False, results = [], error = Some msg\<rparr>"

text \<open>
  What a call leaves behind: the response returned, the cache afterwards, and the
  number of HTTP requests issued.
\<close>

record outcome =
  returned :: response
  cache_after :: cache
  posts :: nat

definition search_google_serp :: "call_env \<Rightarrow> cache \<Rightarrow> string \<Rightarrow> int \<Rightarrow> outcome" where
  "search_google_serp env c query num_results =
     (if api_token env = None \<or> api_token env = Some [] then
        \<lparr>returned = failure ''BRIGHTDATA_API_TOKEN not found in environment'',
         cache_after = c, posts = 0\<rparr>
      else
        (case cache_get (clock_get env) c (cache_key query num_results) of
           (Some cached, c1) \<Rightarrow> \<lparr>returned = cached, cache_after = c1, posts = 0\<rparr>
         | (None, c1) \<Rightarrow>
             (case post_result env of
                TimedOut \<Rightarrow>
                  \<lparr>returned = failure ''SERP API request timed out (30s)'',
                   cache_after = c1, posts = 1\<rparr>
              | Failed msg \<Rightarrow>
                  \<lparr>returned = failure (''SERP API error: '' @ msg),
                   cache_after = c1, posts = 1\<rparr>
              | Responded status text decoded \<Rightarrow>
                  if status = 200 then
                    (case decode env text decoded of
                       Inl e \<Rightarrow>
                         \<lparr>returned = failure (''SERP API error: '' @ exn_text env e),
                          cache_after = c1, posts = 1\<rparr>
                     | Inr data \<Rightarrow>
                         (case extract_results (unwrap_body env data) num_results of
                            Inl e \<Rightarrow>
                              \<lparr>returned = failure (''SERP API error: '' @ exn_text env e),
                               cache_after = c1, posts = 1\<rparr>
                          | Inr rs \<Rightarrow>
                              \<lparr>returned = \<lparr>success = True, results = rs, error = None\<rparr>,
                               cache_after =
                                 (if rs \<noteq> [] then
                                    cache_set (clock_set env) c1 (cache_key query num_results)
                                      \<lparr>success = True, results = rs, error = None\<rparr>
                                  else c1),
                               posts = 1\<rparr>))
                  else
                    \<lparr>returned = failure (''SERP API failed: '' @ str_int status @ '' - ''
                                         @ slice_to 200 text),
                     cache_after = c1, posts = 1\<rparr>)))"

text \<open>
  A sequence of calls on the module's cache, each with its own environment, query and
  \<open>num_results\<close>: the responses returned, in order.
\<close>

fun run_calls :: "cache \<Rightarrow> (call_env \<times> string \<times> int) list \<Rightarrow> response list" where
  "run_calls c [] = []"
| "run_calls c ((env, query, n) # calls) =
     returned (search_google_serp env c query n)
       # run_calls (cache_after (search_google_serp env c query n)) calls"

text \<open>The invariant of \<open>SearchResponse\<close>.\<close>

definition response_ok :: "response \<Rightarrow> bool" where
  "response_ok r =
     ((\<not> success r \<longrightarrow> results r = []) \<and> ((error r \<noteq> None) = (\<not> success r)))"

text \<open>What \<open>search_google_serp\<close> stores: successful responses with a result.\<close>

definition cache_ok :: "cache \<Rightarrow> bool" where
  "cache_ok c = (\<forall>k v ts. c k = Some (v, ts) \<longrightarrow> success v \<and> results v \<noteq> [] \<and> error v = None)"

definition configured :: "call_env \<Rightarrow> bool" where
  "configured env = (api_token env \<noteq> None \<and> api_token env \<noteq> Some [])"

section \<open>The relevance ranker and formatter\<close>

text \<open>Line 203: how many of the keywords occur, lower-cased, in the text.\<close>

definition keyword_count :: "string list \<Rightarrow> string \<Rightarrow> nat" where
  "keyword_count topic_keywords text =
     length (filter (\<lambda>kw. is_substr (lower kw) text) topic_keywords)"

text \<open>
  \<open>relevance_score\<close>, lines 201 to 203. \<open>r.get\<close> needs a dict, and \<open>+\<close> with a string
  needs strings.
\<close>

definition relevance_score :: "string list \<Rightarrow> json \<Rightarrow> exn + nat" where
  "relevance_score topic_keywords r =
     (case r of
        JObj d \<Rightarrow>
          (case dict_get d ''title'' (JStr []) of
             JStr t \<Rightarrow>
               (case dict_get d ''snippet'' (JStr []) of
                  JStr s \<Rightarrow> Inr (keyword_count topic_keywords (lower (t @ '' '' @ s)))
                | _ \<Rightarrow> Inl TypeError)
           | _ \<Rightarrow> Inl TypeError)
      | _ \<Rightarrow> Inl AttributeError)"

text \<open>
  \<open>sorted(results, key=relevance_score, reverse=True)\<close>: the key of every element is
  computed first; the keyed list is reversed, sorted in ascending order of the key by a
  stable sort, and reversed again.
\<close>

fun keyed :: "string list \<Rightarrow> json list \<Rightarrow> exn + (nat \<times> json) list" where
  "keyed topic_keywords [] = Inr []"
| "keyed topic_keywords (r # rs) =
     (case relevance_score topic_keywords r of
        Inl e \<Rightarrow> Inl e
      | Inr k \<Rightarrow>
          (case keyed topic_keywords rs of
             Inl e \<Rightarrow> Inl e
           | Inr ks \<Rightarrow> Inr ((k, r) # ks)))"

definition sorted_reverse :: "(nat \<times> 'a) list \<Rightarrow> 'a list" where
  "sorted_reverse ks = map snd (rev (sort_key fst (rev ks)))"

text \<open>Lines 200 to 205: the list that is rendered.\<close>

definition rank_results :: "json list \<Rightarrow> string list option \<Rightarrow> exn + json list" where
  "rank_results rs topic_keywords =
     (case topic_keywords of
        None \<Rightarrow> Inr rs
      | Some kws \<Rightarrow>
          if kws = [] then Inr rs
          else (case keyed kws rs of
                  Inl e \<Rightarrow> Inl e
                | Inr ks \<Rightarrow> Inr (sorted_reverse ks)))"

text \<open>Truth value of a Python value, as \<open>if r.get('link')\<close> tests it.\<close>

definition truthy :: "json \<Rightarrow> bool" where
  "truthy v =
     (case v of
        JNull \<Rightarrow> False
      | JBool b \<Rightarrow> b
      | JInt i \<Rightarrow> i \<noteq> 0
      | JFloat x \<Rightarrow> x \<noteq> 0
      | JStr s \<Rightarrow> s \<noteq> []
      | JList xs \<Rightarrow> xs \<noteq> []
      | JObj d \<Rightarrow> d \<noteq> [])"

text \<open>
  What an f-string puts for a value: a string as it is, any other value through
  \<open>str\<close>, which is a parameter here.
\<close>

definition text_of :: "(json \<Rightarrow> string) \<Rightarrow> json \<Rightarrow> string" where
  "text_of str_of v = (case v of JStr s \<Rightarrow> s | _ \<Rightarrow> str_of v)"

definition newline :: string where
  "newline = [CHR 0x0A]"

text \<open>Lines 209 to 214, from index \<open>i\<close> on.\<close>

fun render_each :: "(json \<Rightarrow> string) \<Rightarrow> nat \<Rightarrow> string \<Rightarrow> json list \<Rightarrow> exn + string" where
  "render_each str_of i output [] = Inr output"
| "render_each str_of i output (r # rs) =
     (case r of
        JObj d \<Rightarrow>
          render_each str_of (Suc i)
            (output
              @ ''['' @ str_int (int i) @ ''] ''
              @ text_of str_of (dict_get d ''title'' (JStr ''No title'')) @ newline
              @ ''    Snippet: ''
              @ text_of str_of (dict_get d ''snippet'' (JStr ''No snippet'')) @ newline
              @ (if truthy (dict_get d ''link'' JNull)
                 then ''    URL: '' @ text_of str_of (dict_get d ''link'' JNull) @ newline
                 else [])
              @ newline)
            rs
      | _ \<Rightarrow> Inl AttributeError)"

text \<open>Lines 207 to 216.\<close>

definition render :: "(json \<Rightarrow> string) \<Rightarrow> json list \<Rightarrow> exn + string" where
  "render str_of rs =
     render_each str_of 1
       (''=== Google Search Results ('' @ str_int (int (length rs)) @ '' found) ===''
         @ newline @ newline)
       rs"

definition format_serp_results ::
  "(json \<Rightarrow> string) \<Rightarrow> json list \<Rightarrow> string list option \<Rightarrow> exn + string" where
  "format_serp_results str_of rs topic_keywords =
     (if rs = [] then Inr ''No results found.''
      else (case rank_results rs topic_keywords of
              Inl e \<Rightarrow> Inl e
            | Inr ranked \<Rightarrow> render str_of ranked))"

text \<open>
  A result record as \<open>relevance_score\<close> can read it: a dict whose \<open>title\<close> and
  \<open>snippet\<close>, where present, are strings. Its score is the key \<open>relevance_score\<close> gives.
\<close>

definition is_str :: "json \<Rightarrow> bool" where
  "is_str v = (case v of JStr _ \<Rightarrow> True | _ \<Rightarrow> False)"

definition is_result :: "json \<Rightarrow> bool" where
  "is_result r =
     (case r of
        JObj d \<Rightarrow> is_str (dict_get d ''title'' (JStr [])) \<and> is_str (dict_get d ''snippet'' (JStr []))
      | _ \<Rightarrow> False)"

definition score :: "string list \<Rightarrow> json \<Rightarrow> nat" where
  "score topic_keywords r = (case relevance_score topic_keywords r of Inl _ \<Rightarrow> 0 | Inr k \<Rightarrow> k)"

section \<open>Predicates of the properties\<close>

text \<open>
  The \<open>snippet\<close> of a result record is a string or a list (a slice keeps the type of what
  is sliced) of length at most 300.
\<close>

definition snippet_bounded :: "json \<Rightarrow> bool" where
  "snippet_bounded r =
     (case r of
        JObj d \<Rightarrow>
          (case map_of d ''snippet'' of
             Some (JStr s) \<Rightarrow> length s \<le> 300
           | Some (JList xs) \<Rightarrow> length xs \<le> 300
           | _ \<Rightarrow> False)
      | _ \<Rightarrow> False)"

definition is_list :: "json \<Rightarrow> bool" where
  "is_list v = (case v of JList _ \<Rightarrow> True | _ \<Rightarrow> False)"

text \<open>
  The payload dict meets the precondition of a strategy: the first of \<open>organic\<close>,
  \<open>results\<close>, \<open>raw\<close> that is present is a list, a list, a text.
\<close>

definition strategy_applies :: "(string \<times> json) list \<Rightarrow> bool" where
  "strategy_applies d =
     (case map_of d ''organic'' of
        Some v \<Rightarrow> is_list v
      | None \<Rightarrow>
          (case map_of d ''results'' of
             Some v \<Rightarrow> is_list v
           | None \<Rightarrow> (case map_of d ''raw'' of Some v \<Rightarrow> is_str v | None \<Rightarrow> False)))"

text \<open>
  The raw-text strategy as the specification words it, for comparison with
  \<open>raw_loop\<close>: the matches longer than 30 characters are selected first, the first
  \<open>num_results\<close> of them are kept, and they are numbered as produced.
\<close>

definition raw_strategy_as_specified :: "string \<Rightarrow> int \<Rightarrow> json list" where
  "raw_strategy_as_specified raw num_results =
     map (\<lambda>(i, m). raw_result i m)
       (enumerate 0 (slice_to num_results (filter (\<lambda>m. length m > 30) (findall raw))))"

text \<open>
  The cache has no entry under a key built with \<open>num_results = 0\<close>.
\<close>

definition no_zero_entry :: "cache \<Rightarrow> bool" where
  "no_zero_entry c = (\<forall>query. c (cache_key query 0) = None)"

text \<open>
  The score as the specification words it, for comparison with \<open>relevance_score\<close>: the
  keywords are looked for in the concatenation of title and snippet.
\<close>

definition score_as_specified :: "string list \<Rightarrow> json \<Rightarrow> nat" where
  "score_as_specified topic_keywords r =
     (case r of
        JObj d \<Rightarrow>
          (case dict_get d ''title'' (JStr []) of
             JStr t \<Rightarrow>
               (case dict_get d ''snippet'' (JStr []) of
                  JStr s \<Rightarrow> keyword_count topic_keywords (lower (t @ s))
                | _ \<Rightarrow> 0)
           | _ \<Rightarrow> 0)
      | _ \<Rightarrow> 0)"

section \<open>Example inputs\<close>

definition example_env :: "string option \<Rightarrow> real \<Rightarrow> post_outcome \<Rightarrow> call_env" where
  "example_env token now answer =
     \<lparr>api_token = token, serp_format = ''json'', json_loads = (\<lambda>s. None),
      exn_text = (\<lambda>e. ''fault''), clock_get = now, clock_set = now, post_result = answer\<rparr>"

definition example_payload :: json where
  "example_payload =
     JObj [(''organic'',
            JList [JObj [(''title'', JStr ''Harbour Hotel''),
                         (''description'', JStr ''Fast wifi in every room''),
                         (''link'', JStr ''https://a.example'')],
                   JObj [(''title'', JStr ''City Inn''),
                         (''snippet'', JStr ''Clean rooms''),
                         (''url'', JStr ''https://b.example'')]]),
           (''results'', JList [JObj [(''title'', JStr ''Elsewhere'')]])]"

definition example_raw :: string where
  "example_raw = ''A room. The hotel room was clean and the service great.''"

definition example_results :: "json list" where
  "example_results =
     [JObj [(''title'', JStr ''A''), (''snippet'', JStr ''nothing relevant'')],
      JObj [(''title'', JStr ''B wifi''), (''snippet'', JStr ''Room'')],
      JObj [(''title'', JStr ''C''), (''snippet'', JStr ''the ROOM has WiFi'')]]"

definition example_items :: "json list" where
  "example_items =
     [JObj [(''title'', JStr ''Harbour Hotel''),
            (''description'', JStr ''Fast wifi in every room''),
            (''link'', JStr ''https://a.example'')],
      JObj [(''title'', JStr ''City Inn''),
            (''snippet'', JStr ''Clean rooms''),
            (''url'', JStr ''https://b.example'')]]"

definition example_raw_two :: string where
  "example_raw_two =
     ''The hotel room was clean and the service great. The guest wifi was fast all week.''"

definition example_split :: "json list" where
  "example_split =
     [JObj [(''title'', JStr ''Harbour Hotel''), (''snippet'', JStr ''quiet rooms'')],
      JObj [(''title'', JStr ''Free wi''), (''snippet'', JStr ''fi in the lobby'')]]"

section \<open>Properties of the cache key\<close>

lemma lower_char_idem: "lower_char (lower_char c) = lower_char c"
  by (simp add: lower_char_def is_upper_def)

lemma case_variant_lower: "case_variant c d \<Longrightarrow> lower_char c = lower_char d"
  by (auto simp: case_variant_def lower_char_idem)

lemma differ_only_in_case_lower: "differ_only_in_case p q \<Longrightarrow> lower p = lower q"
  unfolding differ_only_in_case_def lower_def
  by (induction p q rule: list_all2_induct) (auto dest: case_variant_lower)

text \<open>
  The decimal text of an integer determines the integer, and has no colon; so the text after
  the last colon of a key is that of \<open>num_results\<close>, and what stands before it is the
  lower-cased query.
\<close>

lemma str_nat_not_Nil: "str_nat n \<noteq> []"
  by (subst str_nat.simps) simp

lemma str_nat_digit:
  "c \<in> set (str_nat n) \<Longrightarrow> 48 \<le> (of_char c :: nat) \<and> (of_char c :: nat) \<le> 57"
proof (induction n arbitrary: c rule: str_nat.induct)
  case (1 n)
  show ?case
  proof (cases "n < 10")
    case True
    with 1(2) have "c = char_of (48 + n)"
      by (subst (asm) str_nat.simps) simp
    with True show ?thesis
      by simp
  next
    case False
    with 1(2) have "c \<in> set (str_nat (n div 10)) \<or> c = char_of (48 + n mod 10)"
      by (subst (asm) str_nat.simps) auto
    then show ?thesis
    proof
      assume "c \<in> set (str_nat (n div 10))"
      from 1(1) [OF False this] show ?thesis .
    next
      assume "c = char_of (48 + n mod 10)"
      moreover have "n mod 10 < 10"
        by simp
      ultimately show ?thesis
        by simp
    qed
  qed
qed

lemma str_nat_value: "foldl (\<lambda>a c. 10 * a + ((of_char c :: nat) - 48)) 0 (str_nat n) = n"
proof (induction n rule: str_nat.induct)
  case (1 n)
  show ?case
  proof (cases "n < 10")
    case True
    then show ?thesis
      by (subst str_nat.simps) simp
  next
    case False
    have "n mod 10 < 10"
      by simp
    then have d: "(of_char (char_of (48 + n mod 10) :: char) :: nat) - 48 = n mod 10"
      by simp
    from False 1 have "foldl (\<lambda>a c. 10 * a + ((of_char c :: nat) - 48)) 0 (str_nat (n div 10)) = n div 10"
      by simp
    with False d show ?thesis
      by (subst str_nat.simps) simp
  qed
qed

lemma str_nat_inj: "str_nat n = str_nat m \<Longrightarrow> n = m"
  by (metis str_nat_value)

lemma str_int_inj: "str_int i = str_int j \<Longrightarrow> i = j"
proof -
  assume a: "str_int i = str_int j"
  have nd: "\<And>n. hd (str_nat n) \<noteq> CHR ''-''"
  proof
    fix n
    assume h: "hd (str_nat n) = CHR ''-''"
    have "hd (str_nat n) \<in> set (str_nat n)"
      by (simp add: str_nat_not_Nil)
    from str_nat_digit [OF this] h show False
      by simp
  qed
  have ne: "\<And>n k. CHR ''-'' # str_nat n \<noteq> str_nat k"
  proof
    fix n k
    assume "CHR ''-'' # str_nat n = str_nat k"
    then have "hd (str_nat k) = CHR ''-''"
      by (metis list.sel(1))
    with nd show False
      by blast
  qed
  show ?thesis
  proof (cases "i < 0")
    case True
    note i = this
    show ?thesis
    proof (cases "j < 0")
      case True
      with i a have "nat (- i) = nat (- j)"
        by (auto simp: str_int_def dest: str_nat_inj)
      with i True show ?thesis
        by simp
    next
      case False
      with i a ne show ?thesis
        by (simp add: str_int_def)
    qed
  next
    case False
    note i = this
    show ?thesis
    proof (cases "j < 0")
      case True
      with i a ne [of "nat (- j)" "nat i"] show ?thesis
        by (simp add: str_int_def)
    next
      case False
      with i a have "nat i = nat j"
        by (auto simp: str_int_def dest: str_nat_inj)
      with i False show ?thesis
        by simp
    qed
  qed
qed

lemma str_int_no_colon: "CHR '':'' \<notin> set (str_int i)"
proof
  assume "CHR '':'' \<in> set (str_int i)"
  then have "CHR '':'' \<in> set (str_nat (nat (- i))) \<or> CHR '':'' \<in> set (str_nat (nat i))"
    by (auto simp: str_int_def split: if_splits)
  then obtain k where "CHR '':'' \<in> set (str_nat k)"
    by blast
  from str_nat_digit [OF this] show False
    by simp
qed

lemma split_at_first:
  "x \<notin> set xs \<Longrightarrow> x \<notin> set xs' \<Longrightarrow> xs @ x # ys = xs' @ x # ys'
     \<Longrightarrow> xs = xs' \<and> ys = ys'"
proof (induction xs arbitrary: xs')
  case Nil
  then show ?case
    by (cases xs') auto
next
  case (Cons a xs)
  then show ?case
    by (cases xs') auto
qed

lemma cache_key_inj:
  "cache_key p n = cache_key q m \<Longrightarrow> lower p = lower q \<and> n = m"
proof -
  assume "cache_key p n = cache_key q m"
  then have "(lower p @ '':'') @ CHR '':'' # str_int n = (lower q @ '':'') @ CHR '':'' # str_int m"
    by (simp add: cache_key_def)
  then have "rev (str_int n) @ CHR '':'' # rev (lower p @ '':'')
           = rev (str_int m) @ CHR '':'' # rev (lower q @ '':'')"
    by (metis rev_append rev.simps(2) append.assoc append_Cons append_Nil rev_rev_ident)
  moreover have "CHR '':'' \<notin> set (rev (str_int n))" and "CHR '':'' \<notin> set (rev (str_int m))"
    by (simp_all add: str_int_no_colon)
  ultimately have "rev (str_int n) = rev (str_int m)
      \<and> rev (lower p @ '':'') = rev (lower q @ '':'')"
    by (rule split_at_first [rotated 2])
  then have "str_int n = str_int m" and "lower p = lower q"
    by simp_all
  then show ?thesis
    by (simp add: str_int_inj)
qed

text \<open>
  C1 (as the code has it). Two calls get the same cache key exactly when their queries have
  the same lower-cased form and their \<open>num_results\<close> are equal. Two queries of code
  points 0 to 255 that differ only in letter case, position by position, have the same
  lower-cased form, and so the same key for the same \<open>num_results\<close>.
\<close>

theorem cache_key_case_insensitive:
  "(cache_key p n = cache_key q m) = (lower p = lower q \<and> n = m)
   \<and> (differ_only_in_case p q \<longrightarrow> cache_key p n = cache_key q n)"
proof (intro conjI impI)
  show "(cache_key p n = cache_key q m) = (lower p = lower q \<and> n = m)"
  proof
    assume "cache_key p n = cache_key q m"
    then show "lower p = lower q \<and> n = m"
      by (rule cache_key_inj)
  next
    assume "lower p = lower q \<and> n = m"
    then show "cache_key p n = cache_key q m"
      by (simp add: cache_key_def)
  qed
next
  assume "differ_only_in_case p q"
  then show "cache_key p n = cache_key q n"
    by (simp add: cache_key_def differ_only_in_case_lower)
qed

theorem cache_key_case_insensitive_witness:
  "differ_only_in_case ''Hotel WiFi'' ''hotel wifi''
   \<and> ''Hotel WiFi'' \<noteq> ''hotel wifi''
   \<and> cache_key ''Hotel WiFi'' 10 = cache_key ''hotel wifi'' 10
   \<and> differ_only_in_case [CHR 0xC9, CHR ''t'', CHR 0xC9] [CHR 0xE9, CHR ''T'', CHR 0xC9]
   \<and> cache_key [CHR 0xC9, CHR ''t'', CHR 0xC9] 10 = cache_key [CHR 0xE9, CHR ''T'', CHR 0xC9] 10
   \<and> lower ''Hotel WiFi'' = lower ''HOTEL wifi''
   \<and> cache_key ''Hotel WiFi'' 10 = cache_key ''HOTEL wifi'' 10
   \<and> cache_key ''Hotel WiFi'' 10 \<noteq> cache_key ''hotel wifi'' 5
   \<and> cache_key ''Hotel WiFi'' 10 \<noteq> cache_key ''hotel wi-fi'' 10"
proof -
  have h1: "differ_only_in_case ''Hotel WiFi'' ''hotel wifi''"
    by code_simp
  have h2: "differ_only_in_case [CHR 0xC9, CHR ''t'', CHR 0xC9] [CHR 0xE9, CHR ''T'', CHR 0xC9]"
    by code_simp
  have h3: "lower ''Hotel WiFi'' = lower ''HOTEL wifi''"
    by code_simp
  have h4: "lower ''Hotel WiFi'' \<noteq> lower ''hotel wi-fi''"
    by code_simp
  have k1: "cache_key ''Hotel WiFi'' 10 = cache_key ''hotel wifi'' 10"
    using cache_key_case_insensitive [of "''Hotel WiFi''" 10 "''hotel wifi''"] h1 by blast
  have k2: "cache_key [CHR 0xC9, CHR ''t'', CHR 0xC9] 10 = cache_key [CHR 0xE9, CHR ''T'', CHR 0xC9] 10"
    using cache_key_case_insensitive
      [of "[CHR 0xC9, CHR ''t'', CHR 0xC9]" 10 "[CHR 0xE9, CHR ''T'', CHR 0xC9]"] h2 by blast
  have k3: "cache_key ''Hotel WiFi'' 10 = cache_key ''HOTEL wifi'' 10"
    using cache_key_case_insensitive [of "''Hotel WiFi''" 10 "''HOTEL wifi''" 10] h3 by blast
  have k4: "cache_key ''Hotel WiFi'' 10 \<noteq> cache_key ''hotel wifi'' 5"
    using cache_key_case_insensitive [of "''Hotel WiFi''" 10 "''hotel wifi''" 5] by simp
  have k5: "cache_key ''Hotel WiFi'' 10 \<noteq> cache_key ''hotel wi-fi'' 10"
    using cache_key_case_insensitive [of "''Hotel WiFi''" 10 "''hotel wi-fi''" 10] h4 by blast
  from h1 h2 h3 k1 k2 k3 k4 k5 show ?thesis
    by simp
qed

text \<open>
  C1 (as stated) fails: the queries \<open>Hotel WiFi\<close> and \<open>hotel wifi\<close> differ only in
  letter case and both get the key \<open>serp::hotel wifi::10\<close>.
\<close>

theorem cache_key_case_counterexample:
  "\<not> (cache_key ''Hotel WiFi'' 10 \<noteq> cache_key ''hotel wifi'' 10)"
  by code_simp

section \<open>Properties of the result extractor\<close>

lemma slice_to_zero: "slice_to 0 xs = []"
  by (simp add: slice_to_def)

lemma slice_to_negative: "n < 0 \<Longrightarrow> slice_to n xs = take (length xs - nat (- n)) xs"
proof -
  assume neg: "n < 0"
  then have "nat (int (length xs) + n) = length xs - nat (- n)"
    by arith
  with neg show ?thesis
    by (simp add: slice_to_def)
qed

lemma slice_json_bounded:
  "slice_json 300 v = Inr sn \<Longrightarrow>
     (case sn of JStr s \<Rightarrow> length s \<le> 300 | JList xs \<Rightarrow> length xs \<le> 300 | _ \<Rightarrow> False)"
  by (auto simp: slice_json_def slice_to_def split: json.splits)

lemma organic_result_bounded: "organic_result item = Inr r \<Longrightarrow> snippet_bounded r"
  by (auto simp: organic_result_def snippet_bounded_def split: json.splits sum.splits
      dest!: slice_json_bounded)

lemma generic_result_bounded: "generic_result item = Inr r \<Longrightarrow> snippet_bounded r"
  by (auto simp: generic_result_def snippet_bounded_def split: json.splits sum.splits
      dest!: slice_json_bounded)

lemma raw_result_bounded: "snippet_bounded (raw_result i m)"
  by (simp add: raw_result_def snippet_bounded_def slice_to_def)

lemma append_each_all:
  "append_each f acc items = Inr rs \<Longrightarrow> (\<And>item r. f item = Inr r \<Longrightarrow> P r)
     \<Longrightarrow> \<forall>r \<in> set acc. P r \<Longrightarrow> \<forall>r \<in> set rs. P r"
  by (induction f acc items rule: append_each.induct) (auto split: sum.splits)

lemma raw_loop_eq:
  "raw_loop i acc ms =
     acc @ map (\<lambda>(j, m). raw_result j m) (filter (\<lambda>(j, m). length m > 30) (enumerate i ms))"
  by (induction ms arbitrary: i acc) auto

lemma extract_organic:
  "map_of d ''organic'' = Some v \<Longrightarrow>
     extract_results (JObj d) n =
       (case slice_items n v of
          Inl e \<Rightarrow> Inl e
        | Inr items \<Rightarrow> append_each organic_result [] items)"
  by (simp add: extract_results_def contains_def getitem_def)

lemma extract_generic:
  "map_of d ''organic'' = None \<Longrightarrow> map_of d ''results'' = Some v \<Longrightarrow>
     extract_results (JObj d) n =
       (case slice_items n v of
          Inl e \<Rightarrow> Inl e
        | Inr items \<Rightarrow> append_each generic_result [] items)"
  by (simp add: extract_results_def contains_def getitem_def)

lemma extract_raw:
  "map_of d ''organic'' = None \<Longrightarrow> map_of d ''results'' = None
     \<Longrightarrow> map_of d ''raw'' = Some (JStr raw) \<Longrightarrow>
     extract_results (JObj d) n = Inr (raw_loop 0 [] (slice_to n (findall raw)))"
  by (simp add: extract_results_def contains_def getitem_def)

lemma extract_zero_organic:
  "map_of d ''organic'' = Some (JList os) \<Longrightarrow> extract_results (JObj d) 0 = Inr []"
  by (simp add: extract_organic slice_items_def slice_to_zero)

lemma extract_zero_generic:
  "map_of d ''organic'' = None \<Longrightarrow> map_of d ''results'' = Some (JList rs)
     \<Longrightarrow> extract_results (JObj d) 0 = Inr []"
  by (simp add: extract_generic slice_items_def slice_to_zero)

lemma extract_zero_raw:
  "map_of d ''organic'' = None \<Longrightarrow> map_of d ''results'' = None
     \<Longrightarrow> map_of d ''raw'' = Some (JStr raw) \<Longrightarrow> extract_results (JObj d) 0 = Inr []"
  by (simp add: extract_raw slice_to_zero)

lemma slice_items_zero: "slice_items 0 v = Inr items \<Longrightarrow> items = []"
  by (auto simp: slice_items_def slice_to_zero split: json.splits)

lemma slice_items_error: "slice_items 0 v = Inl e \<Longrightarrow> slice_items n v = Inl e"
  by (auto simp: slice_items_def split: json.splits)

lemma each_zero_error:
  "(case slice_items 0 v of Inl e \<Rightarrow> Inl e | Inr items \<Rightarrow> append_each f [] items) = Inl e
     \<Longrightarrow> (case slice_items n v of Inl e \<Rightarrow> Inl e | Inr items \<Rightarrow> append_each f [] items) = Inl e"
proof -
  assume a: "(case slice_items 0 v of Inl e \<Rightarrow> Inl e | Inr items \<Rightarrow> append_each f [] items) = Inl e"
  show ?thesis
  proof (cases "slice_items 0 v")
    case (Inl e')
    with a have "slice_items 0 v = Inl e"
      by simp
    then have "slice_items n v = Inl e"
      by (rule slice_items_error)
    then show ?thesis
      by simp
  next
    case (Inr items)
    then have "items = []"
      by (rule slice_items_zero)
    with a Inr show ?thesis
      by simp
  qed
qed

lemma raw_zero_error:
  "(case g of Inl e \<Rightarrow> Inl e
    | Inr (JStr raw) \<Rightarrow> Inr (raw_loop 0 [] (slice_to 0 (findall raw)))
    | Inr _ \<Rightarrow> Inl TypeError) = Inl e
     \<Longrightarrow> (case g of Inl e \<Rightarrow> Inl e
          | Inr (JStr raw) \<Rightarrow> Inr (raw_loop 0 [] (slice_to n (findall raw)))
          | Inr _ \<Rightarrow> Inl TypeError) = Inl e"
proof -
  assume a: "(case g of Inl e \<Rightarrow> Inl e
    | Inr (JStr raw) \<Rightarrow> Inr (raw_loop 0 [] (slice_to 0 (findall raw)))
    | Inr _ \<Rightarrow> Inl TypeError) = Inl e"
  show ?thesis
  proof (cases g)
    case (Inl e')
    with a show ?thesis
      by simp
  next
    case (Inr v)
    with a show ?thesis
      by (cases v) simp_all
  qed
qed

lemma extract_zero_error: "extract_results data 0 = Inl e \<Longrightarrow> extract_results data n = Inl e"
proof -
  assume a: "extract_results data 0 = Inl e"
  show ?thesis
  proof (cases "contains ''organic'' data")
    case (Inl e')
    with a show ?thesis
      by (simp add: extract_results_def)
  next
    case organic: (Inr in_organic)
    show ?thesis
    proof (cases in_organic)
      case True
      show ?thesis
      proof (cases "getitem data ''organic''")
        case (Inl e')
        with a organic True show ?thesis
          by (simp add: extract_results_def)
      next
        case (Inr v)
        with a organic True have "(case slice_items 0 v of Inl e \<Rightarrow> Inl e
            | Inr items \<Rightarrow> append_each organic_result [] items) = Inl e"
          by (simp add: extract_results_def)
        then have "(case slice_items n v of Inl e \<Rightarrow> Inl e
            | Inr items \<Rightarrow> append_each organic_result [] items) = Inl e"
          by (rule each_zero_error)
        with organic True Inr show ?thesis
          by (simp add: extract_results_def)
      qed
    next
      case False
      note no_organic = this
      show ?thesis
      proof (cases "contains ''results'' data")
        case (Inl e')
        with a organic no_organic show ?thesis
          by (simp add: extract_results_def)
      next
        case results: (Inr in_results)
        show ?thesis
        proof (cases in_results)
          case True
          show ?thesis
          proof (cases "getitem data ''results''")
            case (Inl e')
            with a organic no_organic results True show ?thesis
              by (simp add: extract_results_def)
          next
            case (Inr v)
            with a organic no_organic results True have "(case slice_items 0 v of Inl e \<Rightarrow> Inl e
                | Inr items \<Rightarrow> append_each generic_result [] items) = Inl e"
              by (simp add: extract_results_def)
            then have "(case slice_items n v of Inl e \<Rightarrow> Inl e
                | Inr items \<Rightarrow> append_each generic_result [] items) = Inl e"
              by (rule each_zero_error)
            with organic no_organic results True Inr show ?thesis
              by (simp add: extract_results_def)
          qed
        next
          case False
          note no_results = this
          show ?thesis
          proof (cases "contains ''raw'' data")
            case (Inl e')
            with a organic no_organic results no_results show ?thesis
              by (simp add: extract_results_def)
          next
            case raw: (Inr in_raw)
            show ?thesis
            proof (cases in_raw)
              case True
              with a organic no_organic results no_results raw
              have "(case getitem data ''raw'' of Inl e \<Rightarrow> Inl e
                  | Inr (JStr raw) \<Rightarrow> Inr (raw_loop 0 [] (slice_to 0 (findall raw)))
                  | Inr _ \<Rightarrow> Inl TypeError) = Inl e"
                by (simp add: extract_results_def)
              then have "(case getitem data ''raw'' of Inl e \<Rightarrow> Inl e
                  | Inr (JStr raw) \<Rightarrow> Inr (raw_loop 0 [] (slice_to n (findall raw)))
                  | Inr _ \<Rightarrow> Inl TypeError) = Inl e"
                by (rule raw_zero_error)
              with organic no_organic results no_results raw True show ?thesis
                by (simp add: extract_results_def)
            next
              case False
              with a organic no_organic results no_results raw show ?thesis
                by (simp add: extract_results_def)
            qed
          qed
        qed
      qed
    qed
  qed
qed

lemma extract_zero: "extract_results data 0 = Inr rs \<Longrightarrow> rs = []"
  unfolding extract_results_def
  by (auto simp: slice_to_zero split: sum.splits if_splits json.splits dest!: slice_items_zero)

lemma extract_zero_cases:
  "extract_results data 0 = Inr [] \<or> (\<exists>e. \<forall>k. extract_results data k = Inl e)"
proof (cases "extract_results data 0")
  case (Inl e)
  then have "\<forall>k. extract_results data k = Inl e"
    by (blast intro: extract_zero_error)
  then show ?thesis
    by blast
next
  case (Inr rs)
  from extract_zero [OF this] Inr show ?thesis
    by simp
qed

lemma extract_negative_organic:
  "n < 0 \<Longrightarrow> map_of d ''organic'' = Some (JList os) \<Longrightarrow>
     extract_results (JObj d) n = append_each organic_result [] (take (length os - nat (- n)) os)"
  by (simp add: extract_organic slice_items_def slice_to_negative)

lemma extract_negative_generic:
  "n < 0 \<Longrightarrow> map_of d ''organic'' = None \<Longrightarrow> map_of d ''results'' = Some (JList rs) \<Longrightarrow>
     extract_results (JObj d) n = append_each generic_result [] (take (length rs - nat (- n)) rs)"
  by (simp add: extract_generic slice_items_def slice_to_negative)

lemma extract_negative_raw:
  "n < 0 \<Longrightarrow> map_of d ''organic'' = None \<Longrightarrow> map_of d ''results'' = None
     \<Longrightarrow> map_of d ''raw'' = Some (JStr raw) \<Longrightarrow>
     extract_results (JObj d) n =
       Inr (raw_loop 0 [] (take (length (findall raw) - nat (- n)) (findall raw)))"
  by (simp add: extract_raw slice_to_negative)

lemma extract_zero_applies: "strategy_applies d \<Longrightarrow> extract_results (JObj d) 0 = Inr []"
proof -
  assume a: "strategy_applies d"
  show "extract_results (JObj d) 0 = Inr []"
  proof (cases "map_of d ''organic''")
    case (Some v)
    with a obtain os where "v = JList os"
      by (cases v) (simp_all add: strategy_applies_def is_list_def)
    with Some show ?thesis
      by (simp add: extract_zero_organic)
  next
    case organic: None
    show ?thesis
    proof (cases "map_of d ''results''")
      case (Some v)
      with a organic obtain rs where "v = JList rs"
        by (cases v) (simp_all add: strategy_applies_def is_list_def)
      with Some organic show ?thesis
        by (simp add: extract_zero_generic)
    next
      case results: None
      with a organic obtain v where raw: "map_of d ''raw'' = Some v" and "is_str v"
        by (cases "map_of d ''raw''") (simp_all add: strategy_applies_def)
      then obtain s where "v = JStr s"
        by (cases v) (simp_all add: is_str_def)
      with raw organic results show ?thesis
        by (simp add: extract_zero_raw)
    qed
  qed
qed

text \<open>
  C3 (as the code has it). For a payload dict with a \<open>raw\<close> text and neither \<open>organic\<close>
  nor \<open>results\<close>, the produced list consists of those of the first \<open>num_results\<close>
  matches that are longer than 30 characters, in order; each has the title
  \<open>Result N\<close> where \<open>N\<close> is the 1-indexed position of the match among the matches, the
  match cut to 300 characters as snippet, and an empty link.
\<close>

theorem raw_strategy_results:
  "map_of d ''organic'' = None \<Longrightarrow> map_of d ''results'' = None
     \<Longrightarrow> map_of d ''raw'' = Some (JStr raw) \<Longrightarrow>
     extract_results (JObj d) n =
       Inr (map (\<lambda>(i, m). JObj [(''title'', JStr (''Result '' @ str_int (int i + 1))),
                                 (''snippet'', JStr (take 300 m)),
                                 (''link'', JStr [])])
             (filter (\<lambda>(i, m). length m > 30) (enumerate 0 (slice_to n (findall raw)))))"
  by (simp add: extract_raw raw_loop_eq raw_result_def slice_to_def)

theorem raw_strategy_results_witness:
  "map_of [(''raw'', JStr example_raw)] ''organic'' = None
   \<and> map_of [(''raw'', JStr example_raw)] ''results'' = None
   \<and> map_of [(''raw'', JStr example_raw)] ''raw'' = Some (JStr example_raw)
   \<and> findall example_raw = [''A room.'', ''The hotel room was clean and the service great.'']
   \<and> extract_results (JObj [(''raw'', JStr example_raw)]) 2 =
       Inr [JObj [(''title'', JStr ''Result 2''),
                  (''snippet'', JStr ''The hotel room was clean and the service great.''),
                  (''link'', JStr [])]]"
proof -
  have h1: "map_of [(''raw'', JStr example_raw)] ''organic'' = None"
    and h2: "map_of [(''raw'', JStr example_raw)] ''results'' = None"
    and h3: "map_of [(''raw'', JStr example_raw)] ''raw'' = Some (JStr example_raw)"
    by simp_all
  have f: "findall example_raw = [''A room.'', ''The hotel room was clean and the service great.'']"
    by code_simp
  have s: "str_int 2 = ''2''"
    by code_simp
  from raw_strategy_results [OF h1 h2 h3, of 2] f s
  have "extract_results (JObj [(''raw'', JStr example_raw)]) 2 =
       Inr [JObj [(''title'', JStr ''Result 2''),
                  (''snippet'', JStr ''The hotel room was clean and the service great.''),
                  (''link'', JStr [])]]"
    by (simp add: slice_to_def enumerate_eq_zip upt_rec)
  with h1 h2 h3 f show ?thesis
    by simp
qed

text \<open>
  C3 (as stated) fails. The text \<open>A room. The hotel room was clean and the service great.\<close>
  has a short match followed by a long one. With \<open>num_results = 2\<close> the code titles the
  long match \<open>Result 2\<close>, not \<open>Result 1\<close>; with \<open>num_results = 1\<close> it produces nothing,
  although a match longer than 30 characters exists.
\<close>

theorem raw_strategy_counterexample:
  "extract_results (JObj [(''raw'', JStr example_raw)]) 2
     \<noteq> Inr (raw_strategy_as_specified example_raw 2)
   \<and> extract_results (JObj [(''raw'', JStr example_raw)]) 1 = Inr []
   \<and> raw_strategy_as_specified example_raw 1 =
       [JObj [(''title'', JStr ''Result 1''),
              (''snippet'', JStr ''The hotel room was clean and the service great.''),
              (''link'', JStr [])]]"
  by code_simp

text \<open>
  C5. Every result record produced by the extractor, whichever strategy produced it, has
  a snippet of length at most 300.
\<close>

theorem snippet_at_most_300:
  "extract_results data n = Inr rs \<Longrightarrow> \<forall>r \<in> set rs. snippet_bounded r"
proof -
  assume a: "extract_results data n = Inr rs"
  have org: "\<And>items. append_each organic_result [] items = Inr rs
      \<Longrightarrow> \<forall>r \<in> set rs. snippet_bounded r"
    by (rule append_each_all [where f = organic_result and acc = "[]"])
      (auto dest: organic_result_bounded)
  have gen: "\<And>items. append_each generic_result [] items = Inr rs
      \<Longrightarrow> \<forall>r \<in> set rs. snippet_bounded r"
    by (rule append_each_all [where f = generic_result and acc = "[]"])
      (auto dest: generic_result_bounded)
  have raw: "\<And>ms. \<forall>r \<in> set (raw_loop 0 [] ms). snippet_bounded r"
    by (auto simp: raw_loop_eq raw_result_bounded)
  from a show ?thesis
    unfolding extract_results_def
    by (auto split: sum.splits if_splits json.splits dest: org gen simp: raw)
qed

theorem snippet_at_most_300_witness:
  "extract_results
     (JObj [(''results'', JList [JObj [(''snippet'', JStr (replicate 400 CHR ''x''))]])]) 5
     = Inr [JObj [(''title'', JStr []), (''snippet'', JStr (replicate 300 CHR ''x'')),
                  (''link'', JStr [])]]
   \<and> snippet_bounded
       (JObj [(''title'', JStr []), (''snippet'', JStr (replicate 300 CHR ''x'')),
              (''link'', JStr [])])"
proof -
  have e: "extract_results
     (JObj [(''results'', JList [JObj [(''snippet'', JStr (replicate 400 CHR ''x''))]])]) 5
     = Inr [JObj [(''title'', JStr []), (''snippet'', JStr (replicate 300 CHR ''x'')),
                  (''link'', JStr [])]]"
    by code_simp
  from snippet_at_most_300 [OF e] e show ?thesis
    by simp
qed

text \<open>
  C6. The strategies are tried in the order \<open>organic\<close>, \<open>results\<close>, \<open>raw\<close>, and the
  first whose key the payload dict has is used alone. With an \<open>organic\<close> entry the outcome
  is the one for the payload holding that entry alone, built from the first
  \<open>num_results\<close> organic items, and it is the empty list when that slice is empty,
  whatever \<open>results\<close> and \<open>raw\<close> hold. Without \<open>organic\<close> and with a \<open>results\<close> entry the
  outcome is the one for that entry alone, whatever \<open>raw\<close> holds. With neither, the outcome
  is the one for the \<open>raw\<close> entry alone, and the empty list when there is none.
\<close>

theorem strategies_in_priority_order:
  "(map_of d ''organic'' = Some v \<longrightarrow>
       extract_results (JObj d) n = extract_results (JObj [(''organic'', v)]) n)
   \<and> (map_of d ''organic'' = Some (JList os) \<longrightarrow>
       extract_results (JObj d) n = append_each organic_result [] (slice_to n os))
   \<and> (map_of d ''organic'' = Some (JList os) \<and> slice_to n os = [] \<longrightarrow>
       extract_results (JObj d) n = Inr [])
   \<and> (map_of d ''organic'' = None \<and> map_of d ''results'' = Some v \<longrightarrow>
       extract_results (JObj d) n = extract_results (JObj [(''results'', v)]) n)
   \<and> (map_of d ''organic'' = None \<and> map_of d ''results'' = Some (JList rs) \<longrightarrow>
       extract_results (JObj d) n = append_each generic_result [] (slice_to n rs))
   \<and> (map_of d ''organic'' = None \<and> map_of d ''results'' = None \<and> map_of d ''raw'' = Some v \<longrightarrow>
       extract_results (JObj d) n = extract_results (JObj [(''raw'', v)]) n)
   \<and> (map_of d ''organic'' = None \<and> map_of d ''results'' = None \<and> map_of d ''raw'' = None \<longrightarrow>
       extract_results (JObj d) n = Inr [])"
proof (intro conjI impI)
  assume "map_of d ''organic'' = Some v"
  then show "extract_results (JObj d) n = extract_results (JObj [(''organic'', v)]) n"
    by (simp add: extract_organic)
next
  assume "map_of d ''organic'' = Some (JList os)"
  then show "extract_results (JObj d) n = append_each organic_result [] (slice_to n os)"
    by (simp add: extract_organic slice_items_def)
next
  assume "map_of d ''organic'' = Some (JList os) \<and> slice_to n os = []"
  then show "extract_results (JObj d) n = Inr []"
    by (simp add: extract_organic slice_items_def)
next
  assume "map_of d ''organic'' = None \<and> map_of d ''results'' = Some v"
  then show "extract_results (JObj d) n = extract_results (JObj [(''results'', v)]) n"
    by (simp add: extract_generic)
next
  assume "map_of d ''organic'' = None \<and> map_of d ''results'' = Some (JList rs)"
  then show "extract_results (JObj d) n = append_each generic_result [] (slice_to n rs)"
    by (simp add: extract_generic slice_items_def)
next
  assume "map_of d ''organic'' = None \<and> map_of d ''results'' = None \<and> map_of d ''raw'' = Some v"
  then show "extract_results (JObj d) n = extract_results (JObj [(''raw'', v)]) n"
    by (simp add: extract_results_def contains_def getitem_def)
next
  assume "map_of d ''organic'' = None \<and> map_of d ''results'' = None \<and> map_of d ''raw'' = None"
  then show "extract_results (JObj d) n = Inr []"
    by (simp add: extract_results_def contains_def)
qed

theorem strategies_in_priority_order_witness:
  "extract_results
     (JObj [(''raw'', JStr example_raw_two),
            (''results'', JList [JObj [(''title'', JStr ''Elsewhere'')]]),
            (''organic'', JList example_items)]) 5 =
     Inr [JObj [(''title'', JStr ''Harbour Hotel''),
                (''snippet'', JStr ''Fast wifi in every room''),
                (''link'', JStr ''https://a.example'')],
          JObj [(''title'', JStr ''City Inn''),
                (''snippet'', JStr ''Clean rooms''),
                (''link'', JStr ''https://b.example'')]]
   \<and> extract_results
       (JObj [(''raw'', JStr example_raw_two),
              (''results'', JList [JObj [(''title'', JStr ''Elsewhere'')]]),
              (''organic'', JList [])]) 5 = Inr []
   \<and> extract_results
       (JObj [(''raw'', JStr example_raw_two),
              (''results'', JList [JObj [(''title'', JStr ''Elsewhere'')]])]) 5 =
       Inr [JObj [(''title'', JStr ''Elsewhere''), (''snippet'', JStr []), (''link'', JStr [])]]
   \<and> extract_results
       (JObj [(''raw'', JStr example_raw_two), (''results'', JList [])]) 5 = Inr []
   \<and> extract_results (JObj [(''status'', JInt 200), (''raw'', JStr example_raw_two)]) 1 =
       Inr [JObj [(''title'', JStr ''Result 1''),
                  (''snippet'', JStr ''The hotel room was clean and the service great.''),
                  (''link'', JStr [])]]
   \<and> extract_results (JObj [(''status'', JInt 200)]) 5 = Inr []"
proof -
  note t = strategies_in_priority_order
  let ?else = "JList [JObj [(''title'', JStr ''Elsewhere'')]]"
  let ?d1 = "[(''raw'', JStr example_raw_two), (''results'', ?else),
              (''organic'', JList example_items)]"
  have "map_of ?d1 ''organic'' = Some (JList example_items)"
    by simp
  with t [where d = ?d1 and n = 5 and os = example_items]
  have "extract_results (JObj ?d1) 5 = append_each organic_result [] (slice_to 5 example_items)"
    by blast
  also have "\<dots> = Inr [JObj [(''title'', JStr ''Harbour Hotel''),
                (''snippet'', JStr ''Fast wifi in every room''),
                (''link'', JStr ''https://a.example'')],
          JObj [(''title'', JStr ''City Inn''),
                (''snippet'', JStr ''Clean rooms''),
                (''link'', JStr ''https://b.example'')]]"
    by code_simp
  finally have c1: "extract_results (JObj ?d1) 5 =
     Inr [JObj [(''title'', JStr ''Harbour Hotel''),
                (''snippet'', JStr ''Fast wifi in every room''),
                (''link'', JStr ''https://a.example'')],
          JObj [(''title'', JStr ''City Inn''),
                (''snippet'', JStr ''Clean rooms''),
                (''link'', JStr ''https://b.example'')]]" .
  let ?d2 = "[(''raw'', JStr example_raw_two), (''results'', ?else), (''organic'', JList [])]"
  have "map_of ?d2 ''organic'' = Some (JList []) \<and> slice_to 5 ([] :: json list) = []"
    by (simp add: slice_to_def)
  with t [where d = ?d2 and n = 5 and os = "[]"]
  have c2: "extract_results (JObj ?d2) 5 = Inr []"
    by blast
  let ?d3 = "[(''raw'', JStr example_raw_two), (''results'', ?else)]"
  have "map_of ?d3 ''organic'' = None \<and> map_of ?d3 ''results'' = Some ?else"
    by simp
  with t [where d = ?d3 and n = 5 and v = ?else]
  have "extract_results (JObj ?d3) 5 = extract_results (JObj [(''results'', ?else)]) 5"
    by blast
  also have "\<dots> = Inr [JObj [(''title'', JStr ''Elsewhere''), (''snippet'', JStr []),
      (''link'', JStr [])]]"
    by code_simp
  finally have c3: "extract_results (JObj ?d3) 5 =
      Inr [JObj [(''title'', JStr ''Elsewhere''), (''snippet'', JStr []), (''link'', JStr [])]]" .
  let ?d4 = "[(''raw'', JStr example_raw_two), (''results'', JList [])]"
  have "map_of ?d4 ''organic'' = None \<and> map_of ?d4 ''results'' = Some (JList [])"
    by simp
  with t [where d = ?d4 and n = 5 and rs = "[]"]
  have "extract_results (JObj ?d4) 5 = append_each generic_result [] (slice_to 5 [])"
    by blast
  then have c4: "extract_results (JObj ?d4) 5 = Inr []"
    by (simp add: slice_to_def)
  let ?d5 = "[(''status'', JInt 200), (''raw'', JStr example_raw_two)]"
  have "map_of ?d5 ''organic'' = None \<and> map_of ?d5 ''results'' = None
      \<and> map_of ?d5 ''raw'' = Some (JStr example_raw_two)"
    by simp
  with t [where d = ?d5 and n = 1 and v = "JStr example_raw_two"]
  have "extract_results (JObj ?d5) 1 = extract_results (JObj [(''raw'', JStr example_raw_two)]) 1"
    by blast
  also have "\<dots> = Inr [JObj [(''title'', JStr ''Result 1''),
                  (''snippet'', JStr ''The hotel room was clean and the service great.''),
                  (''link'', JStr [])]]"
    by code_simp
  finally have c5: "extract_results (JObj ?d5) 1 =
       Inr [JObj [(''title'', JStr ''Result 1''),
                  (''snippet'', JStr ''The hotel room was clean and the service great.''),
                  (''link'', JStr [])]]" .
  let ?d6 = "[(''status'', JInt 200)]"
  have "map_of ?d6 ''organic'' = None \<and> map_of ?d6 ''results'' = None \<and> map_of ?d6 ''raw'' = None"
    by simp
  with t [where d = ?d6 and n = 5]
  have c6: "extract_results (JObj ?d6) 5 = Inr []"
    by blast
  from c1 c2 c3 c4 c5 c6 show ?thesis
    by blast
qed

section \<open>Properties of the search call\<close>

lemma failure_simps [simp]:
  "success (failure msg) = False"
  "results (failure msg) = []"
  "error (failure msg) = Some msg"
  by (simp_all add: failure_def)

lemma cache_get_cases:
  "cache_get now c key = (None, c(key := None))
   \<or> (\<exists>v ts. c key = Some (v, ts) \<and> now - ts \<le> CACHE_TTL_SEC
         \<and> cache_get now c key = (Some v, c))"
  by (auto simp: cache_get_def split: option.splits)

lemma cache_okD:
  "cache_ok c \<Longrightarrow> c key = Some (v, ts) \<Longrightarrow> success v \<and> results v \<noteq> [] \<and> error v = None"
  unfolding cache_ok_def by blast

lemma cache_ok_empty: "cache_ok Map.empty"
  by (simp add: cache_ok_def)

lemma cache_ok_remove: "cache_ok c \<Longrightarrow> cache_ok (c(key := None))"
  by (auto simp: cache_ok_def)

lemma cache_ok_set:
  "cache_ok c \<Longrightarrow> rs \<noteq> []
     \<Longrightarrow> cache_ok (cache_set now c key \<lparr>success = True, results = rs, error = None\<rparr>)"
  by (auto simp: cache_ok_def cache_set_def)

lemma search_response_ok:
  "cache_ok c \<Longrightarrow> response_ok (returned (search_google_serp env c query n))"
  using cache_get_cases [of "clock_get env" c "cache_key query n"]
  by (auto simp: search_google_serp_def response_ok_def dest: cache_okD
      split: post_outcome.splits sum.splits if_splits)

lemma search_cache_ok:
  "cache_ok c \<Longrightarrow> cache_ok (cache_after (search_google_serp env c query n))"
  using cache_get_cases [of "clock_get env" c "cache_key query n"]
  by (auto simp: search_google_serp_def cache_ok_remove cache_ok_set
      split: post_outcome.splits sum.splits if_splits)

lemma run_calls_ok:
  "cache_ok c \<Longrightarrow> \<forall>r \<in> set (run_calls c calls). response_ok r"
  by (induction c calls rule: run_calls.induct) (auto simp: search_response_ok search_cache_ok)

text \<open>
  C4. In every sequence of calls that starts from the empty cache of a fresh process,
  every response returned, on whichever path, satisfies the invariant: a failure has no
  results, and the error is set exactly when the call failed.
\<close>

theorem every_response_ok:
  "\<forall>r \<in> set (run_calls Map.empty calls). response_ok r"
  by (rule run_calls_ok) (rule cache_ok_empty)

theorem every_response_ok_witness:
  "run_calls Map.empty
     [(example_env None 0 TimedOut, ''wifi review'', 3),
      (example_env (Some ''token'') 0 (Responded 200 [] (Some example_payload)), ''wifi review'', 3),
      (example_env (Some ''token'') 10 TimedOut, ''WiFi Review'', 3),
      (example_env (Some ''token'') 20 (Responded 500 ''oops'' None), ''other'', 3),
      (example_env (Some ''token'') 30 TimedOut, ''other'', 3),
      (example_env (Some ''token'') 40 (Failed ''refused''), ''other'', 3),
      (example_env (Some ''token'') 50 (Responded 200 ''<html>'' None), ''other'', 3)]
   = [failure ''BRIGHTDATA_API_TOKEN not found in environment'',
      \<lparr>success = True,
       results = [JObj [(''title'', JStr ''Harbour Hotel''),
                        (''snippet'', JStr ''Fast wifi in every room''),
                        (''link'', JStr ''https://a.example'')],
                  JObj [(''title'', JStr ''City Inn''),
                        (''snippet'', JStr ''Clean rooms''),
                        (''link'', JStr ''https://b.example'')]],
       error = None\<rparr>,
      \<lparr>success = True,
       results = [JObj [(''title'', JStr ''Harbour Hotel''),
                        (''snippet'', JStr ''Fast wifi in every room''),
                        (''link'', JStr ''https://a.example'')],
                  JObj [(''title'', JStr ''City Inn''),
                        (''snippet'', JStr ''Clean rooms''),
                        (''link'', JStr ''https://b.example'')]],
       error = None\<rparr>,
      failure ''SERP API failed: 500 - oops'',
      failure ''SERP API request timed out (30s)'',
      failure ''SERP API error: refused'',
      failure ''SERP API error: fault'']
   \<and> list_all response_ok
       (run_calls Map.empty
     [(example_env None 0 TimedOut, ''wifi review'', 3),
      (example_env (Some ''token'') 0 (Responded 200 [] (Some example_payload)), ''wifi review'', 3),
      (example_env (Some ''token'') 10 TimedOut, ''WiFi Review'', 3),
      (example_env (Some ''token'') 20 (Responded 500 ''oops'' None), ''other'', 3),
      (example_env (Some ''token'') 30 TimedOut, ''other'', 3),
      (example_env (Some ''token'') 40 (Failed ''refused''), ''other'', 3),
      (example_env (Some ''token'') 50 (Responded 200 ''<html>'' None), ''other'', 3)])"
proof (rule conjI)
  from every_response_ok
  show "list_all response_ok
       (run_calls Map.empty
     [(example_env None 0 TimedOut, ''wifi review'', 3),
      (example_env (Some ''token'') 0 (Responded 200 [] (Some example_payload)), ''wifi review'', 3),
      (example_env (Some ''token'') 10 TimedOut, ''WiFi Review'', 3),
      (example_env (Some ''token'') 20 (Responded 500 ''oops'' None), ''other'', 3),
      (example_env (Some ''token'') 30 TimedOut, ''other'', 3),
      (example_env (Some ''token'') 40 (Failed ''refused''), ''other'', 3),
      (example_env (Some ''token'') 50 (Responded 200 ''<html>'' None), ''other'', 3)])"
    unfolding list_all_iff .
qed code_simp

lemma no_zero_entry_empty: "no_zero_entry Map.empty"
  by (simp add: no_zero_entry_def)

lemma no_zero_entry_remove: "no_zero_entry c \<Longrightarrow> no_zero_entry (c(key := None))"
  by (simp add: no_zero_entry_def)

lemma no_zero_entry_set:
  "no_zero_entry c \<Longrightarrow> n \<noteq> 0 \<Longrightarrow> no_zero_entry (cache_set now c (cache_key query n) v)"
  by (auto simp: no_zero_entry_def cache_set_def dest: cache_key_inj)

lemma search_no_zero_entry:
  "no_zero_entry c \<Longrightarrow> no_zero_entry (cache_after (search_google_serp env c query n))"
  using cache_get_cases [of "clock_get env" c "cache_key query n"]
  by (cases "n = 0")
     (auto simp: search_google_serp_def no_zero_entry_remove no_zero_entry_set
       split: post_outcome.splits sum.splits if_splits dest: extract_zero)

lemma search_zero_results:
  "c (cache_key query 0) = None \<Longrightarrow> results (returned (search_google_serp env c query 0)) = []"
  by (auto simp: search_google_serp_def cache_get_def
      split: post_outcome.splits sum.splits if_splits dest: extract_zero)

lemma run_calls_zero:
  "no_zero_entry c \<Longrightarrow>
     \<forall>(call, r) \<in> set (zip calls (run_calls c calls)). snd (snd call) = 0 \<longrightarrow> results r = []"
proof (induction c calls rule: run_calls.induct)
  case (1 c)
  then show ?case
    by simp
next
  case (2 c env query n calls)
  from 2(2) have "no_zero_entry (cache_after (search_google_serp env c query n))"
    by (rule search_no_zero_entry)
  then have "\<forall>(call, r) \<in> set (zip calls
        (run_calls (cache_after (search_google_serp env c query n)) calls)).
      snd (snd call) = 0 \<longrightarrow> results r = []"
    by (rule 2(1))
  moreover from 2(2) have "n = 0 \<longrightarrow> results (returned (search_google_serp env c query n)) = []"
    by (auto simp: no_zero_entry_def intro: search_zero_results)
  ultimately show ?case
    by simp
qed

text \<open>
  C2 (as the code has it). With \<open>num_results = 0\<close> each strategy takes an empty slice.
  In every sequence of calls that starts from the empty cache, a call with
  \<open>num_results = 0\<close> returns an empty results list. The empty slice raises nothing: for
  every payload the extractor gives the empty list at 0, unless the payload makes it raise
  the same exception at every count; for a payload that meets the precondition of a
  strategy it gives the empty list. With a negative \<open>num_results\<close> each strategy works on
  all candidates but the last \<open>- num_results\<close>.
\<close>

theorem zero_num_results_returns_nothing:
  "(\<forall>(call, r) \<in> set (zip calls (run_calls Map.empty calls)).
       snd (snd call) = 0 \<longrightarrow> results r = [])
   \<and> (extract_results data 0 = Inr [] \<or> (\<exists>e. \<forall>k. extract_results data k = Inl e))
   \<and> (strategy_applies d \<longrightarrow> extract_results (JObj d) 0 = Inr [])
   \<and> (n < 0 \<and> map_of d ''organic'' = Some (JList os) \<longrightarrow>
        extract_results (JObj d) n =
          append_each organic_result [] (take (length os - nat (- n)) os))
   \<and> (n < 0 \<and> map_of d ''organic'' = None \<and> map_of d ''results'' = Some (JList os) \<longrightarrow>
        extract_results (JObj d) n =
          append_each generic_result [] (take (length os - nat (- n)) os))
   \<and> (n < 0 \<and> map_of d ''organic'' = None \<and> map_of d ''results'' = None
        \<and> map_of d ''raw'' = Some (JStr raw) \<longrightarrow>
        extract_results (JObj d) n =
          Inr (raw_loop 0 [] (take (length (findall raw) - nat (- n)) (findall raw))))"
proof (intro conjI)
  show "\<forall>(call, r) \<in> set (zip calls (run_calls Map.empty calls)).
       snd (snd call) = 0 \<longrightarrow> results r = []"
    by (rule run_calls_zero) (rule no_zero_entry_empty)
  show "extract_results data 0 = Inr [] \<or> (\<exists>e. \<forall>k. extract_results data k = Inl e)"
    by (rule extract_zero_cases)
  show "strategy_applies d \<longrightarrow> extract_results (JObj d) 0 = Inr []"
    by (simp add: extract_zero_applies)
  show "n < 0 \<and> map_of d ''organic'' = Some (JList os) \<longrightarrow>
        extract_results (JObj d) n =
          append_each organic_result [] (take (length os - nat (- n)) os)"
    by (simp add: extract_negative_organic)
  show "n < 0 \<and> map_of d ''organic'' = None \<and> map_of d ''results'' = Some (JList os) \<longrightarrow>
        extract_results (JObj d) n =
          append_each generic_result [] (take (length os - nat (- n)) os)"
    by (simp add: extract_negative_generic)
  show "n < 0 \<and> map_of d ''organic'' = None \<and> map_of d ''results'' = None
        \<and> map_of d ''raw'' = Some (JStr raw) \<longrightarrow>
        extract_results (JObj d) n =
          Inr (raw_loop 0 [] (take (length (findall raw) - nat (- n)) (findall raw)))"
    by (simp add: extract_negative_raw)
qed

theorem zero_num_results_returns_nothing_witness:
  "results (returned (search_google_serp
      (example_env (Some ''token'') 10 (Responded 200 [] (Some example_payload)))
      (cache_after (search_google_serp
         (example_env (Some ''token'') 0 (Responded 200 [] (Some example_payload)))
         Map.empty ''wifi review'' 3))
      ''wifi review'' 0)) = []
   \<and> returned (search_google_serp
        (example_env (Some ''token'') 10 (Responded 200 [] (Some example_payload)))
        (cache_after (search_google_serp
           (example_env (Some ''token'') 0 (Responded 200 [] (Some example_payload)))
           Map.empty ''wifi review'' 3))
        ''wifi review'' 0) = \<lparr>success = True, results = [], error = None\<rparr>
   \<and> length (results (returned (search_google_serp
        (example_env (Some ''token'') 0 (Responded 200 [] (Some example_payload)))
        Map.empty ''wifi review'' 3))) = 2
   \<and> strategy_applies [(''raw'', JStr example_raw_two)]
   \<and> extract_results (JObj [(''raw'', JStr example_raw_two)]) 0 = Inr []
   \<and> extract_results (JObj [(''organic'', JInt 5)]) 0 = Inl TypeError
   \<and> extract_results (JObj [(''organic'', JInt 5)]) 3 = Inl TypeError
   \<and> extract_results (JObj [(''organic'', JList example_items)]) (- 1) =
       Inr [JObj [(''title'', JStr ''Harbour Hotel''),
                  (''snippet'', JStr ''Fast wifi in every room''),
                  (''link'', JStr ''https://a.example'')]]
   \<and> extract_results (JObj [(''results'', JList example_items)]) (- 1) =
       Inr [JObj [(''title'', JStr ''Harbour Hotel''),
                  (''snippet'', JStr ''Fast wifi in every room''),
                  (''link'', JStr ''https://a.example'')]]
   \<and> extract_results (JObj [(''raw'', JStr example_raw_two)]) (- 1) =
       Inr [JObj [(''title'', JStr ''Result 1''),
                  (''snippet'', JStr ''The hotel room was clean and the service great.''),
                  (''link'', JStr [])]]"
proof -
  let ?e0 = "example_env (Some ''token'') 0 (Responded 200 [] (Some example_payload))"
  let ?e1 = "example_env (Some ''token'') 10 (Responded 200 [] (Some example_payload))"
  let ?calls = "[(?e0, ''wifi review'', 3 :: int), (?e1, ''wifi review'', 0 :: int)]"
  note t = zero_num_results_returns_nothing
  from t [where calls = ?calls]
  have "\<forall>(call, r) \<in> set (zip ?calls (run_calls Map.empty ?calls)).
      snd (snd call) = 0 \<longrightarrow> results r = []"
    by blast
  then have c1: "results (returned (search_google_serp ?e1
      (cache_after (search_google_serp ?e0 Map.empty ''wifi review'' 3)) ''wifi review'' 0)) = []"
    by simp
  have c2: "returned (search_google_serp ?e1
      (cache_after (search_google_serp ?e0 Map.empty ''wifi review'' 3)) ''wifi review'' 0)
      = \<lparr>success = True, results = [], error = None\<rparr>"
    by code_simp
  have c3: "length (results (returned (search_google_serp ?e0 Map.empty ''wifi review'' 3))) = 2"
    by code_simp
  have h4: "strategy_applies [(''raw'', JStr example_raw_two)]"
    by code_simp
  from t [where d = "[(''raw'', JStr example_raw_two)]"] h4
  have c4: "extract_results (JObj [(''raw'', JStr example_raw_two)]) 0 = Inr []"
    by blast
  have c5: "extract_results (JObj [(''organic'', JInt 5)]) 0 = Inl TypeError"
    and c6: "extract_results (JObj [(''organic'', JInt 5)]) 3 = Inl TypeError"
    by code_simp+
  have neg: "(- 1 :: int) < 0"
    by simp
  have o: "map_of [(''organic'', JList example_items)] ''organic'' = Some (JList example_items)"
    by simp
  from t [where d = "[(''organic'', JList example_items)]" and n = "- 1" and os = example_items]
    neg o
  have "extract_results (JObj [(''organic'', JList example_items)]) (- 1) =
      append_each organic_result [] (take (length example_items - nat (- (- 1))) example_items)"
    by blast
  also have "\<dots> = Inr [JObj [(''title'', JStr ''Harbour Hotel''),
                  (''snippet'', JStr ''Fast wifi in every room''),
                  (''link'', JStr ''https://a.example'')]]"
    by code_simp
  finally have c7: "extract_results (JObj [(''organic'', JList example_items)]) (- 1) =
       Inr [JObj [(''title'', JStr ''Harbour Hotel''),
                  (''snippet'', JStr ''Fast wifi in every room''),
                  (''link'', JStr ''https://a.example'')]]" .
  have g: "map_of [(''results'', JList example_items)] ''organic'' = None
      \<and> map_of [(''results'', JList example_items)] ''results'' = Some (JList example_items)"
    by simp
  from t [where d = "[(''results'', JList example_items)]" and n = "- 1" and os = example_items]
    neg g
  have "extract_results (JObj [(''results'', JList example_items)]) (- 1) =
      append_each generic_result [] (take (length example_items - nat (- (- 1))) example_items)"
    by blast
  also have "\<dots> = Inr [JObj [(''title'', JStr ''Harbour Hotel''),
                  (''snippet'', JStr ''Fast wifi in every room''),
                  (''link'', JStr ''https://a.example'')]]"
    by code_simp
  finally have c8: "extract_results (JObj [(''results'', JList example_items)]) (- 1) =
       Inr [JObj [(''title'', JStr ''Harbour Hotel''),
                  (''snippet'', JStr ''Fast wifi in every room''),
                  (''link'', JStr ''https://a.example'')]]" .
  have r: "map_of [(''raw'', JStr example_raw_two)] ''organic'' = None
      \<and> map_of [(''raw'', JStr example_raw_two)] ''results'' = None
      \<and> map_of [(''raw'', JStr example_raw_two)] ''raw'' = Some (JStr example_raw_two)"
    by simp
  from t [where d = "[(''raw'', JStr example_raw_two)]" and n = "- 1" and raw = example_raw_two]
    neg r
  have "extract_results (JObj [(''raw'', JStr example_raw_two)]) (- 1) =
      Inr (raw_loop 0 []
        (take (length (findall example_raw_two) - nat (- (- 1))) (findall example_raw_two)))"
    by blast
  also have "\<dots> = Inr [JObj [(''title'', JStr ''Result 1''),
                  (''snippet'', JStr ''The hotel room was clean and the service great.''),
                  (''link'', JStr [])]]"
    by code_simp
  finally have c9: "extract_results (JObj [(''raw'', JStr example_raw_two)]) (- 1) =
       Inr [JObj [(''title'', JStr ''Result 1''),
                  (''snippet'', JStr ''The hotel room was clean and the service great.''),
                  (''link'', JStr [])]]" .
  from c1 c2 c3 h4 c4 c5 c6 c7 c8 c9 show ?thesis
    by blast
qed

text \<open>
  C2 (as stated) fails for a negative \<open>num_results\<close>: with \<open>num_results = -1\<close> and two
  organic items, the call returns the first item.
\<close>

theorem negative_num_results_counterexample:
  "(- 1 :: int) \<le> 0
   \<and> returned (search_google_serp
        (example_env (Some ''token'') 0 (Responded 200 [] (Some example_payload)))
        Map.empty ''wifi review'' (- 1))
     = \<lparr>success = True,
        results = [JObj [(''title'', JStr ''Harbour Hotel''),
                         (''snippet'', JStr ''Fast wifi in every room''),
                         (''link'', JStr ''https://a.example'')]],
        error = None\<rparr>"
  by code_simp

text \<open>
  C7. A call that comes back with an empty results list, made with a credential on a
  cache that holds what earlier calls stored, has invoked the provider and leaves no
  entry under its key; so the same request, repeated at any later time, invokes the
  provider again.
\<close>

theorem empty_results_not_cached:
  assumes "cache_ok c" and "configured env" and "configured env'"
    and "results (returned (search_google_serp env c query n)) = []"
  shows "posts (search_google_serp env c query n) = 1
       \<and> cache_after (search_google_serp env c query n) = c(cache_key query n := None)
       \<and> posts (search_google_serp env'
                  (cache_after (search_google_serp env c query n)) query n) = 1"
proof -
  let ?k = "cache_key query n"
  let ?out = "search_google_serp env c query n"
  have miss: "cache_get (clock_get env) c ?k = (None, c(?k := None))"
    using cache_get_cases [of "clock_get env" c ?k] assms
    by (auto simp: search_google_serp_def configured_def dest: cache_okD)
  have 1: "posts ?out = 1" and 2: "cache_after ?out = c(?k := None)"
    using assms miss
    by (auto simp: search_google_serp_def configured_def
        split: post_outcome.splits sum.splits if_splits)
  have "cache_get (clock_get env') (c(?k := None)) ?k = (None, c(?k := None))"
    by (simp add: cache_get_def)
  then have "posts (search_google_serp env' (c(?k := None)) query n) = 1"
    using assms(3)
    by (auto simp: search_google_serp_def configured_def
        split: post_outcome.splits sum.splits if_splits)
  with 1 2 show ?thesis
    by simp
qed

theorem empty_results_not_cached_witness:
  "cache_ok Map.empty
   \<and> configured (example_env (Some ''token'') 0 (Responded 200 [] (Some (JObj []))))
   \<and> configured (example_env (Some ''token'') 1 TimedOut)
   \<and> returned (search_google_serp
        (example_env (Some ''token'') 0 (Responded 200 [] (Some (JObj [])))) Map.empty ''wifi'' 3)
      = \<lparr>success = True, results = [], error = None\<rparr>
   \<and> posts (search_google_serp (example_env (Some ''token'') 1 TimedOut)
        (cache_after (search_google_serp
           (example_env (Some ''token'') 0 (Responded 200 [] (Some (JObj [])))) Map.empty ''wifi'' 3))
        ''wifi'' 3) = 1"
proof -
  have h2: "configured (example_env (Some ''token'') 0 (Responded 200 [] (Some (JObj []))))"
    and h3: "configured (example_env (Some ''token'') 1 TimedOut)"
    by (simp_all add: configured_def example_env_def)
  have r: "returned (search_google_serp
        (example_env (Some ''token'') 0 (Responded 200 [] (Some (JObj [])))) Map.empty ''wifi'' 3)
      = \<lparr>success = True, results = [], error = None\<rparr>"
    by code_simp
  then have h4: "results (returned (search_google_serp
        (example_env (Some ''token'') 0 (Responded 200 [] (Some (JObj [])))) Map.empty ''wifi'' 3))
      = []"
    by simp
  from empty_results_not_cached [OF cache_ok_empty h2 h3 h4]
  have p: "posts (search_google_serp (example_env (Some ''token'') 1 TimedOut)
        (cache_after (search_google_serp
           (example_env (Some ''token'') 0 (Responded 200 [] (Some (JObj [])))) Map.empty ''wifi'' 3))
        ''wifi'' 3) = 1"
    by blast
  from cache_ok_empty h2 h3 r p show ?thesis
    by blast
qed

text \<open>
  C9. A call made while the credential is not configured (the variable is unset or
  empty) returns a failure whose message names \<open>BRIGHTDATA_API_TOKEN\<close>, with no results,
  and issues no HTTP request.
\<close>

theorem missing_credential_fails:
  "\<not> configured env \<Longrightarrow>
     \<not> success (returned (search_google_serp env c query n))
   \<and> results (returned (search_google_serp env c query n)) = []
   \<and> error (returned (search_google_serp env c query n))
       = Some ''BRIGHTDATA_API_TOKEN not found in environment''
   \<and> is_substr ''BRIGHTDATA_API_TOKEN'' ''BRIGHTDATA_API_TOKEN not found in environment''
   \<and> posts (search_google_serp env c query n) = 0"
  by (auto simp: configured_def search_google_serp_def)

theorem missing_credential_fails_witness:
  "\<not> configured (example_env (Some []) 0 (Responded 200 [] (Some example_payload)))
   \<and> returned (search_google_serp
        (example_env (Some []) 0 (Responded 200 [] (Some example_payload)))
        Map.empty ''wifi review'' 3)
      = failure ''BRIGHTDATA_API_TOKEN not found in environment''
   \<and> posts (search_google_serp
        (example_env (Some []) 0 (Responded 200 [] (Some example_payload)))
        Map.empty ''wifi review'' 3) = 0"
proof -
  have h: "\<not> configured (example_env (Some []) 0 (Responded 200 [] (Some example_payload)))"
    by (simp add: configured_def example_env_def)
  have r: "returned (search_google_serp
        (example_env (Some []) 0 (Responded 200 [] (Some example_payload)))
        Map.empty ''wifi review'' 3)
      = failure ''BRIGHTDATA_API_TOKEN not found in environment''"
    by code_simp
  from missing_credential_fails [OF h, of Map.empty "''wifi review''" 3] h r
  show ?thesis
    by blast
qed



section \<open>Properties of the relevance ranker\<close>

lemma relevance_score_result: "is_result r \<Longrightarrow> relevance_score kws r = Inr (score kws r)"
  by (auto simp: is_result_def is_str_def score_def relevance_score_def split: json.splits)

lemma keyed_results:
  "\<forall>r \<in> set rs. is_result r \<Longrightarrow> keyed kws rs = Inr (map (\<lambda>r. (score kws r, r)) rs)"
  by (induction rs) (simp_all add: relevance_score_result)

lemma sorted_reverse_mset: "mset (sorted_reverse (map (\<lambda>r. (f r, r)) rs)) = mset rs"
  by (simp add: sorted_reverse_def image_mset.compositionality comp_def)

lemma sorted_reverse_descending:
  "sorted_wrt (\<lambda>a b. f b \<le> f a) (sorted_reverse (map (\<lambda>r. (f r, r)) rs))"
proof -
  let ?s = "sort_key fst (rev (map (\<lambda>r. (f r, r)) rs))"
  have "sorted (map fst ?s)"
    by (rule sorted_sort_key)
  then have asc: "sorted_wrt (\<lambda>p q. fst p \<le> fst q) ?s"
    by (simp add: sorted_wrt_map)
  have key: "\<And>p. p \<in> set ?s \<Longrightarrow> fst p = f (snd p)"
    by auto
  have "sorted_wrt (\<lambda>p q. f (snd p) \<le> f (snd q)) ?s"
    by (rule sorted_wrt_mono_rel [OF _ asc]) (simp add: key)
  then show ?thesis
    by (simp add: sorted_reverse_def sorted_wrt_map sorted_wrt_rev rev_map [symmetric])
qed

lemma sorted_reverse_stable:
  "filter (\<lambda>r. f r = k) (sorted_reverse (map (\<lambda>r. (f r, r)) rs)) = filter (\<lambda>r. f r = k) rs"
proof -
  let ?ks = "map (\<lambda>r. (f r, r)) rs"
  let ?s = "sort_key fst (rev ?ks)"
  have "filter (\<lambda>r. f r = k) (sorted_reverse ?ks)
      = map snd (rev (filter (\<lambda>p. f (snd p) = k) ?s))"
    by (simp add: sorted_reverse_def filter_map comp_def rev_filter)
  also have "filter (\<lambda>p. f (snd p) = k) ?s = filter (\<lambda>p. fst p = k) ?s"
    by (rule filter_cong) auto
  also have "\<dots> = filter (\<lambda>p. fst p = k) (rev ?ks)"
    by (rule sort_key_stable)
  also have "map snd (rev \<dots>) = filter (\<lambda>r. f r = k) rs"
    by (simp add: rev_filter [symmetric] filter_map comp_def)
  finally show ?thesis .
qed

lemma score_result:
  "map_of d ''title'' = Some (JStr t) \<Longrightarrow> map_of d ''snippet'' = Some (JStr s)
     \<Longrightarrow> score kws (JObj d) = keyword_count kws (lower (t @ '' '' @ s))"
  by (simp add: score_def relevance_score_def dict_get_def)

lemma rank_results_keywords:
  "\<forall>r \<in> set rs. is_result r \<Longrightarrow> kws \<noteq> []
     \<Longrightarrow> rank_results rs (Some kws) = Inr (sorted_reverse (map (\<lambda>r. (score kws r, r)) rs))"
  by (simp add: rank_results_def keyed_results)

text \<open>
  C8 (as the code has it). Without a keyword list the results are rendered in the order
  given. With a non-empty keyword list, and result records whose title and snippet are
  strings, the results are rendered in an order that is a rearrangement of the given one,
  descending in the score, with the results of equal score in their original relative
  order. The score of a record is the number of keywords whose lower-cased form occurs in
  the lower-cased text made of its title, one space, and its snippet.
\<close>

theorem ranking_descending_stable:
  "rank_results rs None = Inr rs
   \<and> format_serp_results str_of rs None =
       (if rs = [] then Inr ''No results found.'' else render str_of rs)
   \<and> ((\<forall>r \<in> set rs. is_result r) \<and> kws \<noteq> [] \<longrightarrow>
        (\<exists>out. rank_results rs (Some kws) = Inr out
           \<and> mset out = mset rs
           \<and> sorted_wrt (\<lambda>a b. score kws b \<le> score kws a) out
           \<and> (\<forall>k. filter (\<lambda>r. score kws r = k) out = filter (\<lambda>r. score kws r = k) rs)
           \<and> format_serp_results str_of rs (Some kws) =
               (if rs = [] then Inr ''No results found.'' else render str_of out)))
   \<and> (map_of d ''title'' = Some (JStr t) \<and> map_of d ''snippet'' = Some (JStr s) \<longrightarrow>
        score kws (JObj d) =
          length (filter (\<lambda>kw. is_substr (lower kw) (lower (t @ '' '' @ s))) kws))"
proof (intro conjI impI)
  show none: "rank_results rs None = Inr rs"
    by (simp add: rank_results_def)
  then show "format_serp_results str_of rs None =
       (if rs = [] then Inr ''No results found.'' else render str_of rs)"
    by (simp add: format_serp_results_def)
next
  assume a: "(\<forall>r \<in> set rs. is_result r) \<and> kws \<noteq> []"
  let ?out = "sorted_reverse (map (\<lambda>r. (score kws r, r)) rs)"
  from a have r: "rank_results rs (Some kws) = Inr ?out"
    by (simp add: rank_results_keywords)
  have "rank_results rs (Some kws) = Inr ?out
           \<and> mset ?out = mset rs
           \<and> sorted_wrt (\<lambda>a b. score kws b \<le> score kws a) ?out
           \<and> (\<forall>k. filter (\<lambda>r. score kws r = k) ?out = filter (\<lambda>r. score kws r = k) rs)
           \<and> format_serp_results str_of rs (Some kws) =
               (if rs = [] then Inr ''No results found.'' else render str_of ?out)"
    using r
    by (simp add: sorted_reverse_mset sorted_reverse_descending sorted_reverse_stable
        format_serp_results_def)
  then show "\<exists>out. rank_results rs (Some kws) = Inr out
           \<and> mset out = mset rs
           \<and> sorted_wrt (\<lambda>a b. score kws b \<le> score kws a) out
           \<and> (\<forall>k. filter (\<lambda>r. score kws r = k) out = filter (\<lambda>r. score kws r = k) rs)
           \<and> format_serp_results str_of rs (Some kws) =
               (if rs = [] then Inr ''No results found.'' else render str_of out)"
    by (rule exI)
next
  assume "map_of d ''title'' = Some (JStr t) \<and> map_of d ''snippet'' = Some (JStr s)"
  then show "score kws (JObj d) =
          length (filter (\<lambda>kw. is_substr (lower kw) (lower (t @ '' '' @ s))) kws)"
    by (simp add: score_result keyword_count_def)
qed

theorem ranking_descending_stable_witness:
  "list_all is_result example_results
   \<and> [''wifi'', ''room''] \<noteq> ([] :: string list)
   \<and> map_of [(''title'', JStr ''C''), (''snippet'', JStr ''the ROOM has WiFi'')] ''title''
       = Some (JStr ''C'')
   \<and> map_of [(''title'', JStr ''C''), (''snippet'', JStr ''the ROOM has WiFi'')] ''snippet''
       = Some (JStr ''the ROOM has WiFi'')
   \<and> score [''wifi'', ''room'']
        (JObj [(''title'', JStr ''C''), (''snippet'', JStr ''the ROOM has WiFi'')]) = 2
   \<and> map (score [''wifi'', ''room'']) example_results = [0, 2, 2]
   \<and> rank_results example_results (Some [''wifi'', ''room'']) =
       Inr [JObj [(''title'', JStr ''B wifi''), (''snippet'', JStr ''Room'')],
            JObj [(''title'', JStr ''C''), (''snippet'', JStr ''the ROOM has WiFi'')],
            JObj [(''title'', JStr ''A''), (''snippet'', JStr ''nothing relevant'')]]
   \<and> sorted_wrt (\<lambda>a b. score [''wifi'', ''room''] b \<le> score [''wifi'', ''room''] a)
       [JObj [(''title'', JStr ''B wifi''), (''snippet'', JStr ''Room'')],
        JObj [(''title'', JStr ''C''), (''snippet'', JStr ''the ROOM has WiFi'')],
        JObj [(''title'', JStr ''A''), (''snippet'', JStr ''nothing relevant'')]]
   \<and> rank_results [JObj [(''title'', JStr ''x'')], JObj [(''title'', JStr [CHR 0xE9])]]
        (Some [[CHR 0xC9]])
       = Inr [JObj [(''title'', JStr [CHR 0xE9])], JObj [(''title'', JStr ''x'')]]"
proof -
  have acc: "rank_results [JObj [(''title'', JStr ''x'')], JObj [(''title'', JStr [CHR 0xE9])]]
        (Some [[CHR 0xC9]])
       = Inr [JObj [(''title'', JStr [CHR 0xE9])], JObj [(''title'', JStr ''x'')]]"
    by code_simp
  have h1: "\<forall>r \<in> set example_results. is_result r"
    by code_simp
  have h2: "[''wifi'', ''room''] \<noteq> ([] :: string list)"
    by simp
  have h3: "map_of [(''title'', JStr ''C''), (''snippet'', JStr ''the ROOM has WiFi'')] ''title''
       = Some (JStr ''C'')"
    and h4: "map_of [(''title'', JStr ''C''), (''snippet'', JStr ''the ROOM has WiFi'')] ''snippet''
       = Some (JStr ''the ROOM has WiFi'')"
    by simp_all
  have c: "length (filter (\<lambda>kw. is_substr (lower kw) (lower (''C'' @ '' '' @ ''the ROOM has WiFi'')))
             [''wifi'', ''room'']) = 2"
    by code_simp
  have m: "map (score [''wifi'', ''room'']) example_results = [0, 2, 2]"
    by code_simp
  have e: "rank_results example_results (Some [''wifi'', ''room'']) =
       Inr [JObj [(''title'', JStr ''B wifi''), (''snippet'', JStr ''Room'')],
            JObj [(''title'', JStr ''C''), (''snippet'', JStr ''the ROOM has WiFi'')],
            JObj [(''title'', JStr ''A''), (''snippet'', JStr ''nothing relevant'')]]"
    by code_simp
  note t = ranking_descending_stable
    [of example_results _ "[''wifi'', ''room'']"
      "[(''title'', JStr ''C''), (''snippet'', JStr ''the ROOM has WiFi'')]"
      "''C''" "''the ROOM has WiFi''"]
  from t h3 h4 c
  have sc: "score [''wifi'', ''room'']
        (JObj [(''title'', JStr ''C''), (''snippet'', JStr ''the ROOM has WiFi'')]) = 2"
    by simp
  from t h1 h2 obtain out where
    "rank_results example_results (Some [''wifi'', ''room'']) = Inr out"
    and "sorted_wrt (\<lambda>a b. score [''wifi'', ''room''] b \<le> score [''wifi'', ''room''] a) out"
    by blast
  with e have so: "sorted_wrt (\<lambda>a b. score [''wifi'', ''room''] b \<le> score [''wifi'', ''room''] a)
       [JObj [(''title'', JStr ''B wifi''), (''snippet'', JStr ''Room'')],
        JObj [(''title'', JStr ''C''), (''snippet'', JStr ''the ROOM has WiFi'')],
        JObj [(''title'', JStr ''A''), (''snippet'', JStr ''nothing relevant'')]]"
    by simp
  from h1 have "list_all is_result example_results"
    unfolding list_all_iff .
  with h2 h3 h4 sc m e so acc show ?thesis
    by blast
qed

text \<open>
  C8 (as stated) fails. The claim counts the keywords in the concatenation of title and
  snippet; the code puts a space between the two. For the title \<open>Free wi\<close> and the snippet
  \<open>fi in the lobby\<close> the keyword \<open>wifi\<close> occurs in the concatenation and not in the text
  the code searches: the code scores both records 0 and leaves the list as it is, which is
  not descending in the score as stated.
\<close>

theorem ranking_concatenation_counterexample:
  "list_all is_result example_split
   \<and> map (score_as_specified [''wifi'']) example_split = [0, 1]
   \<and> map (score [''wifi'']) example_split = [0, 0]
   \<and> rank_results example_split (Some [''wifi'']) = Inr example_split
   \<and> format_serp_results (\<lambda>v. []) example_split (Some [''wifi''])
       = render (\<lambda>v. []) example_split
   \<and> \<not> sorted_wrt (\<lambda>a b. score_as_specified [''wifi''] b \<le> score_as_specified [''wifi''] a)
         example_split"
  by code_simp

end
